theory Spec2Isabelle
  imports Main "HOL-Library.Multiset"
begin

unbundle bit_operations_syntax

section \<open>Python values used by the sources\<close>

text \<open>
  Exceptions are values. A method returns a pair: how the call ended, and the object
  after the call, so that a mutation made before a raise stays visible.
\<close>

datatype error =
    ValueError string
  | IndexError
  | KeyError string
  | AttributeError string
  | TypeError
  | OSError
  | OperationalError string
  | CursesError

datatype 'a outcome = Returned 'a | Raised error

text \<open>\<^verbatim>\<open>s[:n]\<close> and \<^verbatim>\<open>s[n:]\<close>; a negative bound counts from the end.\<close>

definition slice_to :: "'a list \<Rightarrow> int \<Rightarrow> 'a list" where
  "slice_to s n = (if 0 \<le> n then take (nat n) s else take (nat (int (length s) + n)) s)"

definition slice_from :: "'a list \<Rightarrow> int \<Rightarrow> 'a list" where
  "slice_from s n = (if 0 \<le> n then drop (nat n) s else drop (nat (int (length s) + n)) s)"

text \<open>\<^verbatim>\<open>s.startswith(p)\<close>.\<close>

definition startswith :: "string \<Rightarrow> string \<Rightarrow> bool" where
  "startswith s p = (take (length p) s = p)"

text \<open>\<^verbatim>\<open>s.find(t)\<close>: the lowest index at which \<open>t\<close> occurs in \<open>s\<close>, \<open>-1\<close> when it does not.\<close>

fun py_find :: "string \<Rightarrow> string \<Rightarrow> int" where
  "py_find [] t = (if t = [] then 0 else - 1)"
| "py_find (c # cs) t =
     (if take (length t) (c # cs) = t then 0
      else (let r = py_find cs t in if r = - 1 then - 1 else r + 1))"

text \<open>\<^verbatim>\<open>xs[i]\<close> on a list: a negative index counts from the end, out of range raises.\<close>

definition py_index :: "'a list \<Rightarrow> int \<Rightarrow> error + 'a" where
  "py_index xs i =
     (if 0 \<le> i \<and> i < int (length xs) then Inr (xs ! nat i)
      else if i < 0 \<and> - int (length xs) \<le> i then Inr (xs ! nat (int (length xs) + i))
      else Inl IndexError)"

text \<open>\<^verbatim>\<open>'%i' % n\<close> and \<^verbatim>\<open>'%s' % n\<close> for an integer: its decimal digits.\<close>

definition digit_char :: "nat \<Rightarrow> char" where
  "digit_char d = ''0123456789'' ! d"

fun str_nat :: "nat \<Rightarrow> string" where
  "str_nat n = (if n < 10 then [digit_char n] else str_nat (n div 10) @ [digit_char (n mod 10)])"

declare str_nat.simps [simp del]

definition str_int :: "int \<Rightarrow> string" where
  "str_int i = (if i < 0 then CHR ''-'' # str_nat (nat (- i)) else str_nat (nat i))"


section \<open>interface/util.py: the curses platform\<close>

text \<open>
  A curses subwindow is not part of the sources. It is modelled by what the sources ask
  of it: its size (\<^verbatim>\<open>getmaxyx\<close>), its position in the parent (\<^verbatim>\<open>getparyx\<close>), and
  the calls made on it, recorded in order. Platform errors inside \<^verbatim>\<open>addstr\<close>,
  \<^verbatim>\<open>erase\<close> and \<^verbatim>\<open>refresh\<close> are not modelled: the record of calls says what the
  platform was asked to do.
\<close>

datatype win_call = Addstr int int string int | Erase | Refresh

record window =
  getmaxyx :: "int \<times> int"
  getparyx :: "int \<times> int"
  calls :: "win_call list"

definition win_addstr :: "window \<Rightarrow> int \<Rightarrow> int \<Rightarrow> string \<Rightarrow> int \<Rightarrow> window" where
  "win_addstr w y x s a = w\<lparr>calls := calls w @ [Addstr y x s a]\<rparr>"

definition win_erase :: "window \<Rightarrow> window" where
  "win_erase w = w\<lparr>calls := calls w @ [Erase]\<rparr>"

definition win_refresh :: "window \<Rightarrow> window" where
  "win_refresh w = w\<lparr>calls := calls w @ [Refresh]\<rparr>"

text \<open>
  The parent screen: its size, and \<^verbatim>\<open>subwin(nlines, ncols, begin_y, begin_x)\<close>, which
  gives a new subwindow or raises.
\<close>

record screen =
  scr_getmaxyx :: "int \<times> int"
  subwin :: "int \<Rightarrow> int \<Rightarrow> int \<Rightarrow> int \<Rightarrow> error + window"

text \<open>
  One screen to evaluate on, after ncurses: a subwindow has to lie inside the parent, and
  zero lines or columns mean "up to the parent's edge".
\<close>

definition curses_subwin :: "int \<times> int \<Rightarrow> int \<Rightarrow> int \<Rightarrow> int \<Rightarrow> int \<Rightarrow> error + window" where
  "curses_subwin dims nlines ncols begin_y begin_x =
     (let (rows, cols) = dims;
          h = (if nlines = 0 then rows - begin_y else nlines);
          w = (if ncols = 0 then cols - begin_x else ncols)
      in if begin_y < 0 \<or> begin_x < 0 \<or> nlines < 0 \<or> ncols < 0 \<or> h < 1 \<or> w < 1
            \<or> rows < begin_y + h \<or> cols < begin_x + w
         then Inl CursesError
         else Inr \<lparr>getmaxyx = (h, w), getparyx = (begin_y, begin_x), calls = []\<rparr>)"

definition curses_screen :: "int \<Rightarrow> int \<Rightarrow> screen" where
  "curses_screen rows cols =
     \<lparr>scr_getmaxyx = (rows, cols), subwin = curses_subwin (rows, cols)\<rparr>"


section \<open>interface/util.py: formatting tags\<close>

text \<open>The attribute constants of curses, with the values ncurses gives them.\<close>

definition A_NORMAL :: int where "A_NORMAL = 0"
definition A_STANDOUT :: int where "A_STANDOUT = 65536"
definition A_UNDERLINE :: int where "A_UNDERLINE = 131072"
definition A_BOLD :: int where "A_BOLD = 2097152"

definition COLOR_LIST :: "string list" where
  "COLOR_LIST = [''red'', ''green'', ''yellow'', ''blue'', ''cyan'', ''magenta'', ''black'', ''white'']"

text \<open>
  \<^verbatim>\<open>FORMAT_TAGS\<close> is a module-level dictionary. Its keys never change; the value of a
  colour tag is \<^verbatim>\<open>A_NORMAL\<close> until \<^verbatim>\<open>initColors\<close> has run and the colour's entry of
  \<^verbatim>\<open>COLOR_ATTR\<close> afterwards, and \<^verbatim>\<open>COLOR_ATTR\<close> starts as \<open>0\<close> everywhere, which is
  \<^verbatim>\<open>A_NORMAL\<close>. So the dictionary is a function of \<^verbatim>\<open>COLOR_ATTR\<close>, here \<open>ca\<close>. It is kept
  as an association list in the order the source writes the keys. (The order in which
  Python lists a dictionary's keys is not fixed; no tag is a prefix of another, so two
  different tags are never found at the same place and the order cannot be seen.)
\<close>

definition FORMAT_TAGS :: "(string \<Rightarrow> int) \<Rightarrow> (string \<times> int) list" where
  "FORMAT_TAGS ca =
     [(''<b>'', A_BOLD), (''<u>'', A_UNDERLINE), (''<h>'', A_STANDOUT)]
     @ map (\<lambda>colorLabel. (''<'' @ colorLabel @ ''>'', ca colorLabel)) COLOR_LIST"

definition getColor :: "(string \<Rightarrow> int) \<Rightarrow> string \<Rightarrow> int" where
  "getColor ca color = ca color"


section \<open>interface/util.py: Panel\<close>

record Panel =
  win :: "window option"
  startY :: int
  height :: int
  isDisplaced :: bool
  maxY :: int
  maxX :: int

definition resetBounds :: "Panel \<Rightarrow> Panel" where
  "resetBounds self =
     (case win self of
        Some w \<Rightarrow> self\<lparr>maxY := fst (getmaxyx w), maxX := snd (getmaxyx w)\<rparr>
      | None \<Rightarrow> self\<lparr>maxY := - 1, maxX := - 1\<rparr>)"

definition Panel_init :: "int \<Rightarrow> Panel" where
  "Panel_init h =
     resetBounds \<lparr>win = None, startY = - 1, height = h, isDisplaced = False, maxY = - 1, maxX = - 1\<rparr>"

definition recreate :: "Panel \<Rightarrow> screen \<Rightarrow> int \<Rightarrow> int \<Rightarrow> bool outcome \<times> Panel" where
  "recreate self0 stdscr startY' maxX' =
     (let (y, x) = scr_getmaxyx stdscr;
          self = resetBounds self0
      in if win self \<noteq> None \<and> startY' > y then (Returned False, self)
         else
           let newHeight = max 0 (y - startY');
               newHeight = (if height self \<noteq> - 1 then min newHeight (height self) else newHeight)
           in if startY self \<noteq> startY' \<or> newHeight > maxY self \<or> isDisplaced self
                 \<or> (maxX self \<noteq> maxX' \<and> maxX' \<noteq> - 1)
              then
                let self = self\<lparr>startY := startY'\<rparr>;
                    startY'' = min startY' (y - 1);
                    x = (if maxX' \<noteq> - 1 then min x maxX' else x)
                in (case subwin stdscr newHeight x startY'' 0 of
                      Inl e \<Rightarrow> (Raised e, self)
                    | Inr w \<Rightarrow> (Returned True, self\<lparr>win := Some w\<rparr>))
              else (Returned False, self))"

definition clear :: "Panel \<Rightarrow> Panel" where
  "clear self =
     (case win self of
        None \<Rightarrow> self
      | Some w \<Rightarrow>
          let d = (startY self > fst (getparyx w));
              self = self\<lparr>isDisplaced := d\<rparr>;
              self = (if \<not> d then self\<lparr>win := Some (win_erase w)\<rparr> else self)
          in resetBounds self)"

definition refresh :: "Panel \<Rightarrow> Panel" where
  "refresh self =
     (case win self of
        Some w \<Rightarrow> if \<not> isDisplaced self then self\<lparr>win := Some (win_refresh w)\<rparr> else self
      | None \<Rightarrow> self)"

definition addstr :: "Panel \<Rightarrow> int \<Rightarrow> int \<Rightarrow> string \<Rightarrow> int \<Rightarrow> Panel" where
  "addstr self y x msg attr =
     (case win self of
        Some w \<Rightarrow>
          if maxX self > x \<and> maxY self > y \<and> \<not> isDisplaced self
          then self\<lparr>win := Some (win_addstr w y x (slice_to msg (maxX self - x - 1)) attr)\<rparr>
          else self
      | None \<Rightarrow> self)"


text \<open>
  The \<^verbatim>\<open>for\<close> loop of \<^verbatim>\<open>addfstr\<close> over \<^verbatim>\<open>FORMAT_TAGS.keys() + expectedCloseTags\<close>.
  It starts from \<^verbatim>\<open>(None, maxint)\<close>; a Python string is never longer than
  \<^verbatim>\<open>maxint\<close>, so the first tag found always passes \<^verbatim>\<open>tagLoc < nextTagIndex\<close>, and
  the starting pair is modelled as "nothing found yet".
\<close>

definition next_tag :: "string list \<Rightarrow> string \<Rightarrow> (string \<times> int) option" where
  "next_tag cands msg =
     foldl (\<lambda>best tag.
              let tagLoc = py_find msg tag
              in if tagLoc \<noteq> - 1
                    \<and> (case best of None \<Rightarrow> True | Some (nextTag, nextTagIndex) \<Rightarrow> tagLoc < nextTagIndex)
                 then Some (tag, tagLoc) else best)
           None cands"

text \<open>"splits into text before and after tag": the tag found, the segment, the rest.\<close>

definition split_msg :: "string list \<Rightarrow> string \<Rightarrow> string option \<times> string \<times> string" where
  "split_msg cands msg =
     (case next_tag cands msg of
        Some (nextTag, nextTagIndex) \<Rightarrow>
          (Some nextTag, slice_to msg nextTagIndex,
           slice_from msg (nextTagIndex + int (length nextTag)))
      | None \<Rightarrow> (None, msg, []))"

text \<open>\<^verbatim>\<open>xs.remove(v)\<close>: the first occurrence goes, a missing value raises.\<close>

definition py_remove :: "'a list \<Rightarrow> 'a \<Rightarrow> error + 'a list" where
  "py_remove xs v =
     (if v \<in> set xs then Inr (remove1 v xs) else Inl (ValueError ''list.remove(x): x not in list''))"

text \<open>\<^verbatim>\<open>d[k]\<close> on a dictionary.\<close>

definition py_getitem :: "(string \<times> 'v) list \<Rightarrow> string \<Rightarrow> error + 'v" where
  "py_getitem d k = (case map_of d k of Some v \<Rightarrow> Inr v | None \<Rightarrow> Inl (KeyError k))"

text \<open>"applies tag attributes for future text": the two lists after the tag.\<close>

definition apply_tag ::
  "(string \<times> int) list \<Rightarrow> string \<Rightarrow> int list \<Rightarrow> string list \<Rightarrow> error + (int list \<times> string list)"
where
  "apply_tag ft nextTag formatting expectedCloseTags =
     (if \<not> startswith nextTag ''</'' then
        (case py_getitem ft nextTag of
           Inl e \<Rightarrow> Inl e
         | Inr a \<Rightarrow> Inr (formatting @ [a], expectedCloseTags @ [''</'' @ slice_from nextTag 1]))
      else
        (case py_remove expectedCloseTags nextTag of
           Inl e \<Rightarrow> Inl e
         | Inr expectedCloseTags' \<Rightarrow>
             (case py_getitem ft (''<'' @ slice_from nextTag 2) of
                Inl e \<Rightarrow> Inl e
              | Inr a \<Rightarrow>
                  (case py_remove formatting a of
                     Inl e \<Rightarrow> Inl e
                   | Inr formatting' \<Rightarrow> Inr (formatting', expectedCloseTags')))))"

text \<open>\<^verbatim>\<open>attr = 0; for format in formatting: attr |= format\<close>.\<close>

definition union_attr :: "int list \<Rightarrow> int" where
  "union_attr formatting = foldl (OR) 0 formatting"

text \<open>
  The \<^verbatim>\<open>while\<close> loop of \<^verbatim>\<open>addfstr\<close>. Nothing in its form says that it ends, so it is a
  partial function: \<open>None\<close> is "does not return". It gives how the loop ended and the
  window, with the writes made up to there.
\<close>

partial_function (option) addfstr_while ::
  "(string \<times> int) list \<Rightarrow> int \<Rightarrow> int \<Rightarrow> int \<Rightarrow> string \<Rightarrow> int list \<Rightarrow> string list \<Rightarrow> window
     \<Rightarrow> (unit outcome \<times> window) option"
where
  "addfstr_while ft mX y x msg formatting expectedCloseTags w =
     (if mX > x \<and> length msg > 0 then
        (case split_msg (map fst ft @ expectedCloseTags) msg of
           (nextTag, msgSegment, msg') \<Rightarrow>
             let w' = win_addstr w y x (slice_to msgSegment (mX - x - 1)) (union_attr formatting)
             in (case nextTag of
                   None \<Rightarrow>
                     addfstr_while ft mX y (x + int (length msgSegment)) msg'
                       formatting expectedCloseTags w'
                 | Some tag \<Rightarrow>
                     (case apply_tag ft tag formatting expectedCloseTags of
                        Inl e \<Rightarrow> Some (Raised e, w')
                      | Inr (formatting', expectedCloseTags') \<Rightarrow>
                          addfstr_while ft mX y (x + int (length msgSegment)) msg'
                            formatting' expectedCloseTags' w')))
      else Some (Returned (), w))"

declare addfstr_while.simps [code]

definition addfstr ::
  "(string \<times> int) list \<Rightarrow> Panel \<Rightarrow> int \<Rightarrow> int \<Rightarrow> string \<Rightarrow> (unit outcome \<times> Panel) option"
where
  "addfstr ft self y x msg =
     (case win self of
        Some w \<Rightarrow>
          if maxY self > y \<and> \<not> isDisplaced self
          then map_option (\<lambda>(r, w'). (r, self\<lparr>win := Some w'\<rparr>))
                 (addfstr_while ft (maxX self) y x msg [A_NORMAL] [] w)
          else Some (Returned (), self)
      | None \<Rightarrow> Some (Returned (), self))"


text \<open>A write that stays inside rows \<open>0..<h\<close> and columns \<open>0..<w-1\<close>, the last column left free.\<close>

fun within_bounds :: "int \<Rightarrow> int \<Rightarrow> win_call \<Rightarrow> bool" where
  "within_bounds h w (Addstr y x s a) = (0 \<le> y \<and> y < h \<and> 0 \<le> x \<and> x + int (length s) \<le> w - 1)"
| "within_bounds h w Erase = True"
| "within_bounds h w Refresh = True"

text \<open>Two panels to evaluate on: a fresh one, and the same after its first layout on a 24x80 screen.\<close>

definition fresh_panel :: Panel where
  "fresh_panel = Panel_init (- 1)"

definition laid_out_panel :: Panel where
  "laid_out_panel = snd (recreate fresh_panel (curses_screen 24 80) 0 (- 1))"

definition drawn_panel :: Panel where
  "drawn_panel = clear laid_out_panel"


section \<open>The markup writer as the specification words it\<close>

text \<open>
  Facts about \<^verbatim>\<open>find\<close> and the tag search that the definition below needs to be
  accepted: a tag that is found lies inside the message.
\<close>

lemma py_find_occurrence:
  "py_find s t = - 1 \<or>
   (0 \<le> py_find s t \<and> nat (py_find s t) + length t \<le> length s
    \<and> take (length t) (drop (nat (py_find s t)) s) = t)"
proof (induction s)
  case Nil
  then show ?case by simp
next
  case (Cons c cs)
  show ?case
  proof (cases "take (length t) (c # cs) = t")
    case True
    then have "length (take (length t) (c # cs)) = length t" by simp
    then have "length t \<le> length (c # cs)" by (simp add: min_def split: if_splits)
    with True show ?thesis by simp
  next
    case False
    with Cons show ?thesis
      by (auto simp add: Let_def nat_add_distrib)
  qed
qed

lemma next_tag_foldl:
  "foldl (\<lambda>best tag.
              let tagLoc = py_find msg tag
              in if tagLoc \<noteq> - 1
                    \<and> (case best of None \<Rightarrow> True | Some (nextTag, nextTagIndex) \<Rightarrow> tagLoc < nextTagIndex)
                 then Some (tag, tagLoc) else best) b cands = Some (t, i)
   \<Longrightarrow> b = Some (t, i) \<or> (t \<in> set cands \<and> i = py_find msg t \<and> i \<noteq> - 1)"
proof (induction cands arbitrary: b)
  case Nil
  then show ?case by simp
next
  case (Cons c cands)
  from Cons.IH [OF Cons.prems [simplified foldl_Cons]]
  show ?case by (auto simp add: Let_def split: if_splits)
qed

lemma next_tag_found:
  assumes "next_tag cands msg = Some (t, i)"
  shows "t \<in> set cands \<and> i = py_find msg t \<and> 0 \<le> i \<and> nat i + length t \<le> length msg"
proof -
  from assms have a: "t \<in> set cands \<and> i = py_find msg t \<and> i \<noteq> - 1"
    unfolding next_tag_def by (auto dest: next_tag_foldl)
  with py_find_occurrence [of msg t] show ?thesis by auto
qed



definition closing_tag :: "string \<Rightarrow> string" where
  "closing_tag name = ''</'' @ name @ ''>''"












section \<open>nyx/__init__.py: Cache\<close>

text \<open>
  SQLite and the file system are not part of the sources. A database is its two tables,
  each absent until created: the versions stored in \<^verbatim>\<open>schema\<close>, and the rows of
  \<^verbatim>\<open>relays\<close> (fingerprint, address, or_port, nickname).
\<close>

type_synonym relay = "string \<times> string \<times> int \<times> string"

record database =
  schema_table :: "int list option"
  relays_table :: "relay list option"

definition empty_database :: database where
  "empty_database = \<lparr>schema_table = None, relays_table = None\<rparr>"

definition SCHEMA_VERSION :: int where
  "SCHEMA_VERSION = 1"

datatype sql =
    CREATE_TABLE_schema
  | INSERT_INTO_schema int
  | CREATE_TABLE_relays

definition SCHEMA :: "sql list" where
  "SCHEMA = [CREATE_TABLE_schema, INSERT_INTO_schema SCHEMA_VERSION, CREATE_TABLE_relays]"

text \<open>\<^verbatim>\<open>conn.execute(cmd)\<close> for the commands of \<^verbatim>\<open>SCHEMA\<close>.\<close>

fun execute :: "database \<Rightarrow> sql \<Rightarrow> error + database" where
  "execute db CREATE_TABLE_schema =
     (case schema_table db of
        None \<Rightarrow> Inr (db\<lparr>schema_table := Some []\<rparr>)
      | Some rows \<Rightarrow> Inl (OperationalError ''table schema already exists''))"
| "execute db (INSERT_INTO_schema v) =
     (case schema_table db of
        None \<Rightarrow> Inl (OperationalError ''no such table: schema'')
      | Some rows \<Rightarrow> Inr (db\<lparr>schema_table := Some (rows @ [v])\<rparr>))"
| "execute db CREATE_TABLE_relays =
     (case relays_table db of
        None \<Rightarrow> Inr (db\<lparr>relays_table := Some []\<rparr>)
      | Some rows \<Rightarrow> Inl (OperationalError ''table relays already exists''))"

text \<open>\<^verbatim>\<open>for cmd in SCHEMA: self._conn.execute(cmd)\<close>.\<close>

fun execute_all :: "database \<Rightarrow> sql list \<Rightarrow> error + database" where
  "execute_all db [] = Inr db"
| "execute_all db (cmd # cmds) =
     (case execute db cmd of Inl e \<Rightarrow> Inl e | Inr db' \<Rightarrow> execute_all db' cmds)"

text \<open>
  \<^verbatim>\<open>conn.execute('SELECT version FROM schema').fetchone()[0]\<close>: a missing table raises in
  \<^verbatim>\<open>execute\<close>, an empty one gives \<^verbatim>\<open>None\<close> from \<^verbatim>\<open>fetchone\<close>, and \<^verbatim>\<open>None[0]\<close> raises.
\<close>

definition select_version :: "database \<Rightarrow> error + int" where
  "select_version db =
     (case schema_table db of
        None \<Rightarrow> Inl (OperationalError ''no such table: schema'')
      | Some [] \<Rightarrow> Inl TypeError
      | Some (v # rows) \<Rightarrow> Inr v)"

text \<open>
  What the world outside answers while a cache is built: the path from
  \<^verbatim>\<open>nyx.data_directory\<close> (\<^verbatim>\<open>None\<close> when caching is disabled or the directory cannot be
  made), the first \<^verbatim>\<open>sqlite3.connect(cache_path)\<close> (it raises, or gives the database
  found there), \<^verbatim>\<open>os.remove(cache_path)\<close>, and the second \<^verbatim>\<open>sqlite3.connect\<close>.
  \<^verbatim>\<open>sqlite3.connect(':memory:')\<close> gives an empty database.
\<close>

record cache_env =
  data_directory :: "string option"
  connect_first :: "error + database"
  os_remove :: "error option"
  connect_second :: "error + database"

text \<open>The cache: its connection, and whether that is the file or memory.\<close>

record Cache =
  conn :: database
  on_disk :: bool

text \<open>
  \<^verbatim>\<open>Cache.__init__\<close>. In the \<^verbatim>\<open>try\<close> block \<^verbatim>\<open>self._conn\<close> is assigned only if
  \<^verbatim>\<open>connect\<close> returns, so after the \<^verbatim>\<open>except\<close> the attribute may not exist; reading it
  then raises \<^verbatim>\<open>AttributeError\<close>.
\<close>

definition Cache_init :: "cache_env \<Rightarrow> error + Cache" where
  "Cache_init env =
     (case data_directory env of
        Some cache_path \<Rightarrow>
          let (self_conn, schema) =
                (case connect_first env of
                   Inl e \<Rightarrow> (None, None)
                 | Inr db \<Rightarrow>
                     (Some db, case select_version db of Inl e \<Rightarrow> None | Inr v \<Rightarrow> Some v))
          in if schema = Some SCHEMA_VERSION
             then (case self_conn of
                     None \<Rightarrow> Inl (AttributeError ''_conn'')
                   | Some db \<Rightarrow> Inr \<lparr>conn = db, on_disk = True\<rparr>)
             else
               (case self_conn of
                  None \<Rightarrow> Inl (AttributeError ''_conn'')
                | Some db \<Rightarrow>
                    (case os_remove env of
                       Some e \<Rightarrow> Inl e
                     | None \<Rightarrow>
                         (case connect_second env of
                            Inl e \<Rightarrow> Inl e
                          | Inr db' \<Rightarrow>
                              (case execute_all db' SCHEMA of
                                 Inl e \<Rightarrow> Inl e
                               | Inr db'' \<Rightarrow> Inr \<lparr>conn = db'', on_disk = True\<rparr>))))
      | None \<Rightarrow>
          (case execute_all empty_database SCHEMA of
             Inl e \<Rightarrow> Inl e
           | Inr db \<Rightarrow> Inr \<lparr>conn = db, on_disk = False\<rparr>))"

text \<open>
  \<^verbatim>\<open>SELECT nickname FROM relays WHERE fingerprint=?\<close> and \<^verbatim>\<open>fetchone()\<close>: the first row
  with the fingerprint. \<^verbatim>\<open>None\<close> of Python is \<open>None\<close>.
\<close>

definition relay_nickname :: "Cache \<Rightarrow> string \<Rightarrow> string option \<Rightarrow> error + string option" where
  "relay_nickname self fingerprint default' =
     (case relays_table (conn self) of
        None \<Rightarrow> Inl (OperationalError ''no such table: relays'')
      | Some rows \<Rightarrow>
          (case find (\<lambda>(fp, address, or_port, nickname). fp = fingerprint) rows of
             Some (fp, address, or_port, nickname) \<Rightarrow> Inr (Some nickname)
           | None \<Rightarrow> Inr default'))"

definition relay_address ::
  "Cache \<Rightarrow> string \<Rightarrow> (string \<times> int) option \<Rightarrow> error + (string \<times> int) option"
where
  "relay_address self fingerprint default' =
     (case relays_table (conn self) of
        None \<Rightarrow> Inl (OperationalError ''no such table: relays'')
      | Some rows \<Rightarrow>
          (case find (\<lambda>(fp, address, or_port, nickname). fp = fingerprint) rows of
             Some (fp, address, or_port, nickname) \<Rightarrow> Inr (Some (address, or_port))
           | None \<Rightarrow> Inr default'))"

text \<open>
  \<^verbatim>\<open>INSERT OR REPLACE INTO relays\<close>: \<^verbatim>\<open>fingerprint\<close> is the primary key, so a row with
  the same fingerprint is deleted before the new row is inserted.
\<close>

definition insert_or_replace :: "database \<Rightarrow> relay \<Rightarrow> error + database" where
  "insert_or_replace db row =
     (case relays_table db of
        None \<Rightarrow> Inl (OperationalError ''no such table: relays'')
      | Some rows \<Rightarrow>
          Inr (db\<lparr>relays_table := Some (filter (\<lambda>r. fst r \<noteq> fst row) rows @ [row])\<rparr>))"

text \<open>
  The validators of \<^verbatim>\<open>record_relay\<close> are stem's, not part of the sources: they are
  parameters.
\<close>

record validators =
  is_valid_fingerprint :: "string \<Rightarrow> bool"
  is_valid_nickname :: "string \<Rightarrow> bool"
  is_valid_ipv4_address :: "string \<Rightarrow> bool"
  is_valid_ipv6_address :: "string \<Rightarrow> bool"
  is_valid_port :: "int \<Rightarrow> bool"

text \<open>\<^verbatim>\<open>"'%s' isn't a valid ..." % value\<close>.\<close>

definition isnt_valid :: "string \<Rightarrow> string \<Rightarrow> error" where
  "isnt_valid v what = ValueError ([CHR 0x27] @ v @ [CHR 0x27] @ '' isn't a valid '' @ what)"

definition record_relay ::
  "validators \<Rightarrow> Cache \<Rightarrow> string \<Rightarrow> string \<Rightarrow> int \<Rightarrow> string \<Rightarrow> unit outcome \<times> Cache"
where
  "record_relay stem self fingerprint address or_port nickname =
     (if \<not> is_valid_fingerprint stem fingerprint
        then (Raised (isnt_valid fingerprint ''fingerprint''), self)
      else if \<not> is_valid_nickname stem nickname
        then (Raised (isnt_valid nickname ''nickname''), self)
      else if \<not> is_valid_ipv4_address stem address \<and> \<not> is_valid_ipv6_address stem address
        then (Raised (isnt_valid address ''address''), self)
      else if \<not> is_valid_port stem or_port
        then (Raised (isnt_valid (str_int or_port) ''port''), self)
      else
        (case insert_or_replace (conn self) (fingerprint, address, or_port, nickname) of
           Inl e \<Rightarrow> (Raised e, self)
         | Inr db \<Rightarrow> (Returned (), self\<lparr>conn := db\<rparr>)))"

text \<open>
  Validators to evaluate with, after the data model of the specification: a fingerprint
  is 40 hexadecimal digits, a nickname 1 to 19 letters and digits, a port lies in
  1..65535; an address is taken to be IPv4 when it is digits and three dots, IPv6 when it
  is hexadecimal digits and at least two colons.
\<close>

definition is_hex :: "char \<Rightarrow> bool" where
  "is_hex c = (c \<in> set ''0123456789abcdefABCDEF'')"

definition is_alnum :: "char \<Rightarrow> bool" where
  "is_alnum c =
     (c \<in> set ''0123456789abcdefghijklmnopqrstuvwxyzABCDEFGHIJKLMNOPQRSTUVWXYZ'')"

definition sample_validators :: validators where
  "sample_validators =
     \<lparr>is_valid_fingerprint = (\<lambda>s. length s = 40 \<and> list_all is_hex s),
      is_valid_nickname = (\<lambda>s. 1 \<le> length s \<and> length s \<le> 19 \<and> list_all is_alnum s),
      is_valid_ipv4_address =
        (\<lambda>s. s \<noteq> [] \<and> list_all (\<lambda>c. c \<in> set ''0123456789.'') s \<and> count_list s CHR ''.'' = 3),
      is_valid_ipv6_address =
        (\<lambda>s. s \<noteq> [] \<and> list_all (\<lambda>c. is_hex c \<or> c = CHR '':'') s \<and> 2 \<le> count_list s CHR '':''),
      is_valid_port = (\<lambda>p. 0 < p \<and> p < 65536)\<rparr>"

text \<open>The cache built when no data directory can be used: in memory.\<close>

definition memory_env :: cache_env where
  "memory_env =
     \<lparr>data_directory = None, connect_first = Inl (OperationalError ''unable to open database file''),
      os_remove = Some OSError, connect_second = Inl (OperationalError ''unable to open database file'')\<rparr>"

definition memory_cache :: Cache where
  "memory_cache = \<lparr>conn = \<lparr>schema_table = Some [SCHEMA_VERSION], relays_table = Some []\<rparr>,
                    on_disk = False\<rparr>"

text \<open>
  A data directory that exists, so that a path is returned, but in which the cache file
  cannot be opened.
\<close>

definition unopenable_env :: cache_env where
  "unopenable_env =
     \<lparr>data_directory = Some ''/home/user/.nyx/cache.sqlite'',
      connect_first = Inl (OperationalError ''unable to open database file''),
      os_remove = Some OSError,
      connect_second = Inl (OperationalError ''unable to open database file'')\<rparr>"


text \<open>A fingerprint to evaluate with.\<close>

definition fp1 :: string where "fp1 = ''9695DFC35FFEB861329B9F1AB04C46397020CE31''"


section \<open>nyx/__init__.py: the panels an Interface holds\<close>

text \<open>
  Modelled from the spec: the panel classes of \<^verbatim>\<open>nyx.panel\<close> are not part of the sources.
  A panel is an object with an identity; \<^verbatim>\<open>panel in visible_panels\<close> compares identities.
  From sections 3, 4.3 and 4.4 of the specification: every surface has a visibility flag,
  \<^verbatim>\<open>set_visible\<close> sets it; \<^verbatim>\<open>set_paused\<close> hands a surface the paused state;
  \<^verbatim>\<open>redraw\<close> draws and \<^verbatim>\<open>get_height\<close> gives the rendered height; a background-polling
  surface (a \<^verbatim>\<open>DaemonPanel\<close>) has \<^verbatim>\<open>start\<close>, \<^verbatim>\<open>stop\<close> and \<^verbatim>\<open>join\<close>. Every call made on a
  panel is recorded, in order.
\<close>

type_synonym panel_id = nat

datatype panel_kind =
    HeaderPanel | GraphPanel | LogPanel | ConnectionPanel | ConfigPanel | TorrcPanel
  | InterpreterPanel

datatype panel_call =
    Set_visible bool
  | Set_paused bool
  | Redraw
  | Redraw_at bool int
  | Start
  | Stop
  | Join

record panel_obj =
  kind :: panel_kind
  is_daemon :: bool
  visible :: bool
  panel_paused :: bool
  rendered_height :: int

text \<open>
  The interface with the objects it refers to: the fields of \<^verbatim>\<open>Interface\<close>
  (\<^verbatim>\<open>_page\<close>, \<^verbatim>\<open>_page_panels\<close>, \<^verbatim>\<open>_header_panel\<close>, \<^verbatim>\<open>_paused\<close>, \<^verbatim>\<open>_quit\<close>), the panel
  objects by identity, the next identity to hand out, and the calls made on panels.
\<close>

record Interface =
  f_page :: int
  f_page_panels :: "panel_id list list"
  f_header_panel :: panel_id
  f_paused :: bool
  f_quit :: bool
  objects :: "panel_id \<Rightarrow> panel_obj"
  next_id :: panel_id
  trace :: "(panel_id \<times> panel_call) list"

text \<open>Modelled from the spec: the methods of the panel classes, which are not part of the sources.\<close>

definition called :: "Interface \<Rightarrow> panel_id \<Rightarrow> panel_call \<Rightarrow> Interface" where
  "called self panel c = self\<lparr>trace := trace self @ [(panel, c)]\<rparr>"

definition panel_set_visible :: "Interface \<Rightarrow> panel_id \<Rightarrow> bool \<Rightarrow> Interface" where
  "panel_set_visible self panel v =
     called (self\<lparr>objects := (objects self)(panel := (objects self panel)\<lparr>visible := v\<rparr>)\<rparr>)
       panel (Set_visible v)"

definition panel_set_paused :: "Interface \<Rightarrow> panel_id \<Rightarrow> bool \<Rightarrow> Interface" where
  "panel_set_paused self panel v =
     called (self\<lparr>objects := (objects self)(panel := (objects self panel)\<lparr>panel_paused := v\<rparr>)\<rparr>)
       panel (Set_paused v)"

definition panel_redraw :: "Interface \<Rightarrow> panel_id \<Rightarrow> Interface" where
  "panel_redraw self panel = called self panel Redraw"

definition panel_redraw_at :: "Interface \<Rightarrow> panel_id \<Rightarrow> bool \<Rightarrow> int \<Rightarrow> Interface" where
  "panel_redraw_at self panel force top' = called self panel (Redraw_at force top')"

definition panel_get_height :: "Interface \<Rightarrow> panel_id \<Rightarrow> int" where
  "panel_get_height self panel = rendered_height (objects self panel)"

definition panel_start :: "Interface \<Rightarrow> panel_id \<Rightarrow> Interface" where
  "panel_start self panel = called self panel Start"

definition panel_stop :: "Interface \<Rightarrow> panel_id \<Rightarrow> Interface" where
  "panel_stop self panel = called self panel Stop"

definition panel_join :: "Interface \<Rightarrow> panel_id \<Rightarrow> Interface" where
  "panel_join self panel = called self panel Join"

text \<open>
  Modelled from the spec: a panel constructor, which is not part of the sources. It gives
  a new object with an identity not used before. Which classes are daemon panels and how
  high a panel renders are parameters.
\<close>

definition new_panel ::
  "(panel_kind \<Rightarrow> bool) \<Rightarrow> (panel_kind \<Rightarrow> int) \<Rightarrow> Interface \<Rightarrow> panel_kind \<Rightarrow> panel_id \<times> Interface"
where
  "new_panel daemons heights self k =
     (next_id self,
      self\<lparr>objects := (objects self)(next_id self :=
               \<lparr>kind = k, is_daemon = daemons k, visible = False, panel_paused = False,
                rendered_height = heights k\<rparr>),
            next_id := Suc (next_id self)\<rparr>)"


section \<open>nyx/__init__.py: Interface\<close>

text \<open>The keys of \<^verbatim>\<open>CONFIG\<close> that the constructor reads.\<close>

record config =
  show_graph :: bool
  show_log :: bool
  show_connections :: bool
  show_config :: bool
  show_torrc :: bool
  show_interpreter :: bool

text \<open>\<^verbatim>\<open>__iter__\<close>: the header panel, then the panels of every page in order.\<close>

definition iter_panels :: "Interface \<Rightarrow> panel_id list" where
  "iter_panels self = f_header_panel self # concat (f_page_panels self)"

definition get_page :: "Interface \<Rightarrow> int" where
  "get_page self = f_page self"

definition page_count :: "Interface \<Rightarrow> int" where
  "page_count self = int (length (f_page_panels self))"

definition header_panel :: "Interface \<Rightarrow> panel_id" where
  "header_panel self = f_header_panel self"

definition page_panels :: "Interface \<Rightarrow> int option \<Rightarrow> error + panel_id list" where
  "page_panels self page_number =
     (let page_number = (case page_number of None \<Rightarrow> f_page self | Some n \<Rightarrow> n)
      in case py_index (f_page_panels self) page_number of
           Inl e \<Rightarrow> Inl e
         | Inr panels \<Rightarrow> Inr (f_header_panel self # panels))"

definition is_paused :: "Interface \<Rightarrow> bool" where
  "is_paused self = f_paused self"

text \<open>\<^verbatim>\<open>for panel in self: panel.set_visible(panel in visible_panels)\<close>.\<close>

definition show_only :: "Interface \<Rightarrow> panel_id list \<Rightarrow> Interface" where
  "show_only self visible_panels =
     foldl (\<lambda>s panel. panel_set_visible s panel (panel \<in> set visible_panels)) self (iter_panels self)"

text \<open>
  \<^verbatim>\<open>Interface.__init__\<close>, in two parts: the fields and the panels of the pages, up to
  the last \<^verbatim>\<open>self._page_panels.append\<close>; then the loop over the panels. An optional
  panel is appended when its key of \<^verbatim>\<open>CONFIG\<close> is set.
\<close>

definition append_if ::
  "bool \<Rightarrow> (panel_kind \<Rightarrow> bool) \<Rightarrow> (panel_kind \<Rightarrow> int) \<Rightarrow> panel_kind
     \<Rightarrow> panel_id list \<times> Interface \<Rightarrow> panel_id list \<times> Interface"
where
  "append_if flag daemons heights k acc =
     (if flag
      then (case new_panel daemons heights (snd acc) k of (p, s) \<Rightarrow> (fst acc @ [p], s))
      else acc)"

definition append_page_if ::
  "bool \<Rightarrow> (panel_kind \<Rightarrow> bool) \<Rightarrow> (panel_kind \<Rightarrow> int) \<Rightarrow> panel_kind \<Rightarrow> Interface \<Rightarrow> Interface"
where
  "append_page_if flag daemons heights k self =
     (if flag
      then (case new_panel daemons heights self k of
              (p, s) \<Rightarrow> s\<lparr>f_page_panels := f_page_panels s @ [[p]]\<rparr>)
      else self)"

definition blank_interface :: Interface where
  "blank_interface =
     \<lparr>f_page = 0, f_page_panels = [], f_header_panel = 0, f_paused = False, f_quit = False,
      objects = (\<lambda>_. \<lparr>kind = HeaderPanel, is_daemon = False, visible = False,
                       panel_paused = False, rendered_height = 0\<rparr>),
      next_id = 0, trace = []\<rparr>"

definition construct_panels ::
  "config \<Rightarrow> (panel_kind \<Rightarrow> bool) \<Rightarrow> (panel_kind \<Rightarrow> int) \<Rightarrow> Interface"
where
  "construct_panels CONFIG daemons heights =
     (let self = blank_interface;
          (header, self) = new_panel daemons heights self HeaderPanel;
          self = self\<lparr>f_header_panel := header\<rparr>;
          (first_page_panels, self) =
             append_if (show_log CONFIG) daemons heights LogPanel
               (append_if (show_graph CONFIG) daemons heights GraphPanel ([], self));
          self = (if first_page_panels \<noteq> []
                  then self\<lparr>f_page_panels := f_page_panels self @ [first_page_panels]\<rparr>
                  else self);
          self = append_page_if (show_connections CONFIG) daemons heights ConnectionPanel self;
          self = append_page_if (show_config CONFIG) daemons heights ConfigPanel self;
          self = append_page_if (show_torrc CONFIG) daemons heights TorrcPanel self;
          self = append_page_if (show_interpreter CONFIG) daemons heights InterpreterPanel self
      in self)"

definition Interface_init ::
  "config \<Rightarrow> (panel_kind \<Rightarrow> bool) \<Rightarrow> (panel_kind \<Rightarrow> int) \<Rightarrow> unit outcome \<times> Interface"
where
  "Interface_init CONFIG daemons heights =
     (let self = construct_panels CONFIG daemons heights
      in case page_panels self None of
           Inl e \<Rightarrow> (Raised e, self)
         | Inr visible_panels \<Rightarrow>
             (Returned (),
              foldl (\<lambda>s panel.
                       let s = panel_set_visible s panel (panel \<in> set visible_panels)
                       in if is_daemon (objects s panel) then panel_start s panel else s)
                    self (iter_panels self)))"

definition set_page :: "Interface \<Rightarrow> int \<Rightarrow> unit outcome \<times> Interface" where
  "set_page self page_number =
     (if page_number < 0 \<or> page_number \<ge> page_count self
      then (Raised (ValueError (''Invalid page number: '' @ str_int page_number)), self)
      else if page_number \<noteq> f_page self
      then
        let self = self\<lparr>f_page := page_number\<rparr>;
            self = panel_redraw self (header_panel self)
        in (case page_panels self None of
              Inl e \<Rightarrow> (Raised e, self)
            | Inr visible_panels \<Rightarrow> (Returned (), show_only self visible_panels))
      else (Returned (), self))"

definition set_paused :: "Interface \<Rightarrow> bool \<Rightarrow> unit outcome \<times> Interface" where
  "set_paused self is_pause =
     (if is_pause \<noteq> f_paused self
      then
        let self = self\<lparr>f_paused := is_pause\<rparr>;
            self = foldl (\<lambda>s panel. panel_set_paused s panel is_pause) self (iter_panels self)
        in (case page_panels self None of
              Inl e \<Rightarrow> (Raised e, self)
            | Inr panels \<Rightarrow> (Returned (), foldl panel_redraw self panels))
      else (Returned (), self))"

definition redraw :: "Interface \<Rightarrow> unit outcome \<times> Interface" where
  "redraw self =
     (case page_panels self None of
        Inl e \<Rightarrow> (Raised e, self)
      | Inr panels \<Rightarrow>
          (Returned (),
           fst (foldl (\<lambda>(s, occupied) panel.
                         (panel_redraw_at s panel False occupied, occupied + panel_get_height s panel))
                      (self, 0) panels)))"

definition quit :: "Interface \<Rightarrow> Interface" where
  "quit self = self\<lparr>f_quit := True\<rparr>"

text \<open>
  \<^verbatim>\<open>halt\<close>. The function \<^verbatim>\<open>halt_panels\<close> is the target of the thread; \<^verbatim>\<open>halt\<close> makes the
  thread, starts it and returns it, and does not join it. A thread is modelled by its
  target, a step from interface to interface that is taken when the thread runs to its
  end; \<^verbatim>\<open>halt\<close> itself takes no such step.
\<close>

definition halt_panels :: "Interface \<Rightarrow> Interface" where
  "halt_panels self =
     (let daemons = filter (\<lambda>panel. is_daemon (objects self panel)) (iter_panels self);
          self = foldl panel_stop self daemons;
          self = foldl panel_join self daemons
      in self)"

datatype thread = Thread "Interface \<Rightarrow> Interface"

fun completed :: "thread \<Rightarrow> Interface \<Rightarrow> Interface" where
  "completed (Thread target) self = target self"

definition halt :: "Interface \<Rightarrow> thread \<times> Interface" where
  "halt self = (Thread halt_panels, self)"

text \<open>
  The invariant of the specification: the page shown is one of the pages, and every panel
  is visible exactly when it is the header or belongs to the page shown.
\<close>

definition visibility_inv :: "Interface \<Rightarrow> bool" where
  "visibility_inv self =
     (0 \<le> f_page self \<and> f_page self < page_count self
      \<and> (\<forall>panel \<in> set (iter_panels self).
            visible (objects self panel)
              = (panel = f_header_panel self
                 \<or> panel \<in> set (f_page_panels self ! nat (f_page self)))))"

text \<open>The operations of an interface, to say "every operation" in one statement.\<close>

datatype operation =
    Get_page | Set_page int | Page_count | Is_paused | Set_paused_to bool | Redraw_all | Quit
  | Halt | Halt_and_complete

fun perform :: "Interface \<Rightarrow> operation \<Rightarrow> Interface" where
  "perform self Get_page = self"
| "perform self (Set_page n) = snd (set_page self n)"
| "perform self Page_count = self"
| "perform self Is_paused = self"
| "perform self (Set_paused_to b) = snd (set_paused self b)"
| "perform self Redraw_all = snd (redraw self)"
| "perform self Quit = quit self"
| "perform self Halt = snd (halt self)"
| "perform self Halt_and_complete = (case halt self of (t, s) \<Rightarrow> completed t s)"

text \<open>The calls of one kind in a trace, and the default configuration of the source.\<close>

definition calls_of :: "panel_call \<Rightarrow> (panel_id \<times> panel_call) list \<Rightarrow> panel_id list" where
  "calls_of c t = map fst (filter (\<lambda>e. snd e = c) t)"

definition default_config :: config where
  "default_config =
     \<lparr>show_graph = True, show_log = True, show_connections = True, show_config = True,
      show_torrc = True, show_interpreter = True\<rparr>"

definition nyx_daemons :: "panel_kind \<Rightarrow> bool" where
  "nyx_daemons k = (k \<in> {HeaderPanel, GraphPanel, LogPanel, ConnectionPanel})"

definition default_interface :: Interface where
  "default_interface = snd (Interface_init default_config nyx_daemons (\<lambda>_. 1))"


text \<open>\<^verbatim>\<open>[panel for panel in self if isinstance(panel, nyx.panel.DaemonPanel)]\<close>.\<close>

definition daemon_panels :: "Interface \<Rightarrow> panel_id list" where
  "daemon_panels self = filter (\<lambda>panel. is_daemon (objects self panel)) (iter_panels self)"


text \<open>What a call on a panel leaves alone.\<close>

definition same_layout :: "Interface \<Rightarrow> Interface \<Rightarrow> bool" where
  "same_layout s s' =
     (f_page s' = f_page s \<and> f_page_panels s' = f_page_panels s
      \<and> f_header_panel s' = f_header_panel s \<and> f_paused s' = f_paused s \<and> f_quit s' = f_quit s
      \<and> (\<forall>p. is_daemon (objects s' p) = is_daemon (objects s p)))"


text \<open>Calls that leave the visibility flags alone.\<close>

definition same_visible :: "Interface \<Rightarrow> Interface \<Rightarrow> bool" where
  "same_visible s s' = (\<forall>p. visible (objects s' p) = visible (objects s p))"


section \<open>Properties of Panel.recreate and Panel.addstr\<close>

lemma laid_out_panel_eq:
  "laid_out_panel =
     \<lparr>win = Some \<lparr>getmaxyx = (24, 80), getparyx = (0, 0), calls = []\<rparr>,
      startY = 0, height = - 1, isDisplaced = False, maxY = - 1, maxX = - 1\<rparr>"
  by (simp add: laid_out_panel_def fresh_panel_def Panel_init_def resetBounds_def recreate_def
      curses_screen_def curses_subwin_def)

lemma drawn_panel_eq:
  "drawn_panel =
     \<lparr>win = Some \<lparr>getmaxyx = (24, 80), getparyx = (0, 0), calls = [Erase]\<rparr>,
      startY = 0, height = - 1, isDisplaced = False, maxY = 24, maxX = 80\<rparr>"
  by (simp add: drawn_panel_def laid_out_panel_eq clear_def resetBounds_def win_erase_def)

text \<open>
  C1, as stated, fails. \<^verbatim>\<open>recreate\<close> rejects a top beyond the screen only when the panel
  already has a subwindow (\<^verbatim>\<open>if self.win and startY > y\<close>): a fresh panel asked for top 30
  on a 24-line screen gets a subwindow on the last line and the call returns \<open>True\<close>. And
  \<^verbatim>\<open>_resetBounds\<close> runs before the test, so the rejected call on the laid-out panel returns
  \<open>False\<close> but replaces the cached bounds \<open>(-1, -1)\<close> by the subwindow's size.
\<close>

theorem recreate_rejects_counterexample:
  "fst (scr_getmaxyx (curses_screen 24 80)) < 30
   \<and> recreate fresh_panel (curses_screen 24 80) 30 (- 1)
       = (Returned True,
          fresh_panel\<lparr>startY := 30,
                        win := Some \<lparr>getmaxyx = (1, 80), getparyx = (23, 0), calls = []\<rparr>\<rparr>)
   \<and> recreate laid_out_panel (curses_screen 24 80) 30 (- 1)
       = (Returned False, laid_out_panel\<lparr>maxY := 24, maxX := 80\<rparr>)
   \<and> laid_out_panel\<lparr>maxY := 24, maxX := 80\<rparr> \<noteq> laid_out_panel"
  by (simp add: laid_out_panel_eq fresh_panel_def Panel_init_def resetBounds_def recreate_def
      curses_screen_def curses_subwin_def)

text \<open>
  C1, amended: for a panel that has a subwindow, \<^verbatim>\<open>recreate\<close> with a top beyond the screen
  height returns \<open>False\<close> and leaves the configured top, the subwindow, the preferred
  height and the displaced flag as they were; the cached bounds are read again from the
  subwindow, so the panel is unchanged altogether when they already were its size.
\<close>

theorem recreate_rejects_with_window:
  assumes "win self = Some w" and "fst (scr_getmaxyx stdscr) < desiredTop"
  shows "recreate self stdscr desiredTop desiredMaxWidth
           = (Returned False, self\<lparr>maxY := fst (getmaxyx w), maxX := snd (getmaxyx w)\<rparr>)
         \<and> ((maxY self, maxX self) = getmaxyx w
              \<longrightarrow> recreate self stdscr desiredTop desiredMaxWidth = (Returned False, self))"
proof -
  have r: "recreate self stdscr desiredTop desiredMaxWidth
             = (Returned False, self\<lparr>maxY := fst (getmaxyx w), maxX := snd (getmaxyx w)\<rparr>)"
    using assms
    by (cases "scr_getmaxyx stdscr") (simp add: recreate_def resetBounds_def Let_def)
  have "self\<lparr>maxY := fst (getmaxyx w), maxX := snd (getmaxyx w)\<rparr> = self"
    if "(maxY self, maxX self) = getmaxyx w"
  proof -
    from that have "fst (getmaxyx w) = maxY self" and "snd (getmaxyx w) = maxX self"
      by (cases "getmaxyx w"; simp)+
    then show ?thesis by simp
  qed
  with r show ?thesis by simp
qed

theorem recreate_rejects_with_window_witness:
  "win drawn_panel = Some \<lparr>getmaxyx = (24, 80), getparyx = (0, 0), calls = [Erase]\<rparr>
   \<and> fst (scr_getmaxyx (curses_screen 24 80)) < 30
   \<and> recreate drawn_panel (curses_screen 24 80) 30 (- 1) = (Returned False, drawn_panel)"
  using recreate_rejects_with_window
          [of drawn_panel "\<lparr>getmaxyx = (24, 80), getparyx = (0, 0), calls = [Erase]\<rparr>"
              "curses_screen 24 80" 30 "- 1"]
  by (simp add: drawn_panel_eq curses_screen_def)

text \<open>
  C7, as stated, fails. \<^verbatim>\<open>addstr\<close> tests \<^verbatim>\<open>self.maxX > x and self.maxY > y\<close> only: a
  row or column below zero is outside the bounds and still reaches the window. On the
  24x80 panel, row \<open>-1\<close> is written to.
\<close>

theorem addstr_noop_counterexample:
  "\<not> (0 \<le> (- 1 :: int) \<and> - 1 < maxY drawn_panel)
   \<and> addstr drawn_panel (- 1) 0 ''hi'' A_NORMAL
       = drawn_panel\<lparr>win := Some \<lparr>getmaxyx = (24, 80), getparyx = (0, 0),
                                     calls = [Erase, Addstr (- 1) 0 ''hi'' A_NORMAL]\<rparr>\<rparr>
   \<and> addstr drawn_panel (- 1) 0 ''hi'' A_NORMAL \<noteq> drawn_panel
   \<and> \<not> within_bounds (maxY drawn_panel) (maxX drawn_panel) (Addstr (- 1) 0 ''hi'' A_NORMAL)"
  by (simp add: drawn_panel_eq addstr_def win_addstr_def slice_to_def)

text \<open>
  C7, amended: \<^verbatim>\<open>addstr\<close> does nothing when the panel has no subwindow, is displaced, or
  the row or column is at or beyond the cached height or width. Otherwise it makes exactly
  one write, at the row and column given, of the text cut to \<open>width - col - 1\<close>
  characters; when the row and the column are not negative, that write lies inside the
  cached bounds and leaves the last column free.
\<close>

theorem addstr_clipped:
  "(win self = None \<or> isDisplaced self \<or> maxY self \<le> y \<or> maxX self \<le> x
      \<longrightarrow> addstr self y x msg attr = self)
   \<and> (\<forall>w. win self = Some w \<and> \<not> isDisplaced self \<and> y < maxY self \<and> x < maxX self
      \<longrightarrow> addstr self y x msg attr
            = self\<lparr>win := Some (w\<lparr>calls := calls w
                      @ [Addstr y x (take (nat (maxX self - x - 1)) msg) attr]\<rparr>)\<rparr>
          \<and> int (length (take (nat (maxX self - x - 1)) msg)) \<le> maxX self - x - 1
          \<and> (0 \<le> y \<and> 0 \<le> x
               \<longrightarrow> within_bounds (maxY self) (maxX self)
                     (Addstr y x (take (nat (maxX self - x - 1)) msg) attr)))"
  by (cases "win self") (auto simp add: addstr_def win_addstr_def slice_to_def)

theorem addstr_clipped_witness:
  "addstr drawn_panel 3 78 ''hello'' A_BOLD
     = drawn_panel\<lparr>win := Some \<lparr>getmaxyx = (24, 80), getparyx = (0, 0),
                                   calls = [Erase, Addstr 3 78 ''h'' A_BOLD]\<rparr>\<rparr>
   \<and> within_bounds 24 80 (Addstr 3 78 ''h'' A_BOLD)
   \<and> addstr drawn_panel 3 80 ''hello'' A_BOLD = drawn_panel
   \<and> addstr fresh_panel 0 0 ''hello'' A_BOLD = fresh_panel"
  using addstr_clipped [of drawn_panel 3 78 "''hello''" A_BOLD]
        addstr_clipped [of drawn_panel 3 80 "''hello''" A_BOLD]
        addstr_clipped [of fresh_panel 0 0 "''hello''" A_BOLD]
  by (simp add: drawn_panel_eq fresh_panel_def Panel_init_def resetBounds_def)


section \<open>Properties of Panel.addfstr\<close>

text \<open>
  What the tag search finds is the nearest occurrence: \<^verbatim>\<open>find\<close> gives the first place
  where a tag occurs, and no candidate tag occurs before the one that is chosen.
\<close>

lemma py_find_absent:
  "py_find s t = - 1 \<Longrightarrow> j \<le> length s \<Longrightarrow> take (length t) (drop j s) \<noteq> t"
proof (induction s arbitrary: j)
  case Nil
  then show ?case by (auto split: if_splits)
next
  case (Cons c cs)
  from Cons.prems(1) py_find_occurrence [of cs t]
  have n: "take (length t) (c # cs) \<noteq> t" and r: "py_find cs t = - 1"
    by (auto simp add: Let_def split: if_splits)
  show ?case
  proof (cases j)
    case 0
    with n show ?thesis by simp
  next
    case (Suc k)
    with Cons.prems(2) Cons.IH [OF r, of k] show ?thesis by simp
  qed
qed

lemma py_find_first:
  "py_find s t \<noteq> - 1 \<Longrightarrow> j < nat (py_find s t) \<Longrightarrow> take (length t) (drop j s) \<noteq> t"
proof (induction s arbitrary: j)
  case Nil
  then show ?case by (auto split: if_splits)
next
  case (Cons c cs)
  show ?case
  proof (cases "take (length t) (c # cs) = t")
    case True
    with Cons.prems(2) show ?thesis by simp
  next
    case False
    with Cons.prems(1) have r: "py_find cs t \<noteq> - 1" and e: "py_find (c # cs) t = py_find cs t + 1"
      by (auto simp add: Let_def split: if_splits)
    show ?thesis
    proof (cases j)
      case 0
      with False show ?thesis by simp
    next
      case (Suc k)
      from py_find_occurrence [of cs t] r have "0 \<le> py_find cs t" by auto
      with Cons.prems(2) e Suc have "k < nat (py_find cs t)" by simp
      from Cons.IH [OF r this] Suc show ?thesis by simp
    qed
  qed
qed

lemma next_tag_nearest:
  "(next_tag cands msg = None \<longrightarrow> (\<forall>u \<in> set cands. py_find msg u = - 1))
   \<and> (\<forall>t i. next_tag cands msg = Some (t, i)
        \<longrightarrow> (\<forall>u \<in> set cands. py_find msg u = - 1 \<or> i \<le> py_find msg u))"
proof (induction cands rule: rev_induct)
  case Nil
  show ?case by (simp add: next_tag_def)
next
  case (snoc c cands)
  show ?case
  proof (cases "next_tag cands msg")
    case None
    with snoc show ?thesis
      by (auto simp add: next_tag_def Let_def)
  next
    case (Some p)
    obtain t i where p: "p = (t, i)" by (cases p)
    from Some p snoc have "\<forall>u \<in> set cands. py_find msg u = - 1 \<or> i \<le> py_find msg u"
      by simp
    with Some p show ?thesis
      by (auto simp add: next_tag_def Let_def)
  qed
qed

lemma split_msg_none:
  "split_msg cands msg = (None, seg, rest) \<Longrightarrow> seg = msg \<and> rest = []"
  by (auto simp add: split_msg_def split: option.splits)

lemma split_msg_some:
  assumes "split_msg cands msg = (Some t, seg, rest)"
  shows "t \<in> set cands \<and> length rest + length t \<le> length msg
         \<and> (\<exists>i. next_tag cands msg = Some (t, i) \<and> seg = take (nat i) msg
                \<and> rest = drop (nat i + length t) msg \<and> int (length seg) = i)"
proof -
  from assms obtain i where n: "next_tag cands msg = Some (t, i)"
    and s: "seg = slice_to msg i" and r: "rest = slice_from msg (i + int (length t))"
    by (auto simp add: split_msg_def split: option.splits)
  from next_tag_found [OF n] have f: "t \<in> set cands" "0 \<le> i" "nat i + length t \<le> length msg"
    by auto
  from f have "rest = drop (nat i + length t) msg"
    by (simp add: r slice_from_def nat_add_distrib)
  moreover from f have "seg = take (nat i) msg" by (simp add: s slice_to_def)
  ultimately show ?thesis using f n by auto
qed

lemma apply_tag_nonempty:
  assumes "[] \<notin> fst ` set ft" and "apply_tag ft t f e = Inr r"
  shows "t \<noteq> []"
proof
  assume "t = []"
  moreover from assms(1) have "map_of ft [] = None"
    by (simp add: map_of_eq_None_iff)
  ultimately show False using assms(2)
    by (simp add: apply_tag_def startswith_def py_getitem_def)
qed

lemma addfstr_while_returns:
  assumes "[] \<notin> fst ` set ft"
  shows "\<exists>r. addfstr_while ft mX y x msg f e w = Some r"
proof (induction "length msg" arbitrary: x msg f e w rule: less_induct)
  case less
  show ?case
  proof (cases "mX > x \<and> length msg > 0")
    case False
    then show ?thesis by (subst addfstr_while.simps) auto
  next
    case True
    obtain nt seg rest where sp: "split_msg (map fst ft @ e) msg = (nt, seg, rest)"
      by (cases "split_msg (map fst ft @ e) msg") auto
    show ?thesis
    proof (cases nt)
      case None
      with sp have "rest = []" by (auto dest: split_msg_none)
      with True have "length rest < length msg" by simp
      from less [OF this] None sp True show ?thesis
        by (subst addfstr_while.simps) (simp add: Let_def)
    next
      case (Some t)
      show ?thesis
      proof (cases "apply_tag ft t f e")
        case (Inl err)
        with Some sp True show ?thesis
          by (subst addfstr_while.simps) (simp add: Let_def)
      next
        case (Inr r)
        with assms have "t \<noteq> []" by (rule apply_tag_nonempty)
        moreover from sp Some have "length rest + length t \<le> length msg"
          by (auto dest: split_msg_some)
        ultimately have "length rest < length msg" by (cases t) auto
        from less [OF this] Inr Some sp True show ?thesis
          by (subst addfstr_while.simps) (simp add: Let_def split: prod.splits)
      qed
    qed
  qed
qed






lemma closing_tag_inject: "closing_tag n = closing_tag m \<longleftrightarrow> n = m"
  by (simp add: closing_tag_def)











lemma FORMAT_TAGS_nonempty: "[] \<notin> fst ` set (FORMAT_TAGS ca)"
  by (simp add: FORMAT_TAGS_def COLOR_LIST_def)




text \<open>
  C10: the loop of \<^verbatim>\<open>addfstr\<close> returns for every message, column, bound and window, from
  any two lists it is started on, and so does \<^verbatim>\<open>addfstr\<close>. The measure is the length of
  the message left: when no tag is found, nothing is left; when a tag is found, what is
  left is shorter than before by the length of the tag at least, and strictly shorter
  whenever the loop goes on after the tag.
\<close>

theorem addfstr_terminates:
  "(\<exists>r. addfstr (FORMAT_TAGS ca) self y x msg = Some r)
   \<and> (\<exists>r. addfstr_while (FORMAT_TAGS ca) mX y x msg formatting expectedCloseTags w = Some r)
   \<and> (\<forall>seg rest. split_msg (map fst (FORMAT_TAGS ca) @ expectedCloseTags) msg = (None, seg, rest)
         \<longrightarrow> rest = [])
   \<and> (\<forall>tag seg rest.
         split_msg (map fst (FORMAT_TAGS ca) @ expectedCloseTags) msg = (Some tag, seg, rest)
         \<longrightarrow> length rest + length tag \<le> length msg
           \<and> (\<forall>r. apply_tag (FORMAT_TAGS ca) tag formatting expectedCloseTags = Inr r
                  \<longrightarrow> length rest < length msg))"
proof -
  have w: "\<exists>r. addfstr_while (FORMAT_TAGS ca) mX y x msg f e w = Some r" for mX f e w
    by (rule addfstr_while_returns [OF FORMAT_TAGS_nonempty])
  then have a: "\<exists>r. addfstr (FORMAT_TAGS ca) self y x msg = Some r"
    using w [of "maxX self" "[A_NORMAL]" "[]"]
    by (auto simp add: addfstr_def split: option.splits)
  have s: "length rest + length tag \<le> length msg
           \<and> (\<forall>r. apply_tag (FORMAT_TAGS ca) tag formatting expectedCloseTags = Inr r
                  \<longrightarrow> length rest < length msg)"
    if "split_msg (map fst (FORMAT_TAGS ca) @ expectedCloseTags) msg = (Some tag, seg, rest)"
    for tag seg rest
  proof -
    from that have l: "length rest + length tag \<le> length msg" by (auto dest: split_msg_some)
    have "length rest < length msg"
      if "apply_tag (FORMAT_TAGS ca) tag formatting expectedCloseTags = Inr r" for r
    proof -
      from FORMAT_TAGS_nonempty that have "tag \<noteq> []" by (rule apply_tag_nonempty)
      with l show ?thesis by (cases tag) auto
    qed
    with l show ?thesis by blast
  qed
  from a w s show ?thesis by (auto dest: split_msg_none)
qed

theorem addfstr_terminates_witness:
  "(\<exists>r. addfstr (FORMAT_TAGS (\<lambda>_. A_NORMAL)) drawn_panel 0 0 ''<b><b>a</u><x>'' = Some r)
   \<and> split_msg (map fst (FORMAT_TAGS (\<lambda>_. A_NORMAL)) @ [''</b>'']) ''a</b></u>''
       = (Some ''</b>'', ''a'', ''</u>'')
   \<and> apply_tag (FORMAT_TAGS (\<lambda>_. A_NORMAL)) ''</b>'' [A_NORMAL, A_BOLD] [''</b>''] = Inr ([A_NORMAL], [])
   \<and> length ''</u>'' < length ''a</b></u>''"
  using addfstr_terminates [of "\<lambda>_. A_NORMAL" drawn_panel 0 0 "''<b><b>a</u><x>''"]
        addfstr_terminates [where ca = "\<lambda>_. A_NORMAL" and msg = "''a</b></u>''"
          and expectedCloseTags = "[''</b>'']" and formatting = "[A_NORMAL, A_BOLD]"]
  by (simp add: FORMAT_TAGS_def COLOR_LIST_def split_msg_def next_tag_def slice_to_def slice_from_def
      apply_tag_def startswith_def py_remove_def py_getitem_def A_NORMAL_def A_BOLD_def)


section \<open>Properties of Cache\<close>

lemma Cache_init_memory:
  "data_directory env = None \<Longrightarrow> Cache_init env = Inr memory_cache"
  by (simp add: Cache_init_def memory_cache_def SCHEMA_def empty_database_def)

lemma Cache_init_no_connection:
  "data_directory env = Some cache_path \<Longrightarrow> connect_first env = Inl e
   \<Longrightarrow> Cache_init env = Inl (AttributeError ''_conn'')"
  by (simp add: Cache_init_def)

lemma Cache_init_loaded:
  "data_directory env = Some cache_path \<Longrightarrow> connect_first env = Inr db
   \<Longrightarrow> select_version db = Inr SCHEMA_VERSION
   \<Longrightarrow> Cache_init env = Inr \<lparr>conn = db, on_disk = True\<rparr>"
  by (simp add: Cache_init_def)

lemma Cache_init_recreated:
  "data_directory env = Some cache_path \<Longrightarrow> connect_first env = Inr db
   \<Longrightarrow> select_version db \<noteq> Inr SCHEMA_VERSION
   \<Longrightarrow> os_remove env = None \<Longrightarrow> connect_second env = Inr empty_database
   \<Longrightarrow> Cache_init env = Inr (memory_cache\<lparr>on_disk := True\<rparr>)"
  by (cases "select_version db")
     (simp_all add: Cache_init_def memory_cache_def SCHEMA_def empty_database_def)

text \<open>
  C2 does not hold of the code. When the data directory exists but the cache file cannot
  be opened, \<^verbatim>\<open>sqlite3.connect\<close> raises inside the \<^verbatim>\<open>try\<close>, the \<^verbatim>\<open>except\<close> sets
  \<^verbatim>\<open>schema = None\<close>, and the branch that clears the cache starts with
  \<^verbatim>\<open>self._conn.close()\<close> on an attribute that was never assigned: the constructor ends
  with \<^verbatim>\<open>AttributeError\<close>, where the class promises an in-memory cache.
\<close>

theorem Cache_init_unopenable:
  "data_directory unopenable_env = Some ''/home/user/.nyx/cache.sqlite''
   \<and> connect_first unopenable_env = Inl (OperationalError ''unable to open database file'')
   \<and> Cache_init unopenable_env = Inl (AttributeError ''_conn'')"
  by (simp add: Cache_init_def unopenable_env_def)

lemma find_fingerprint_upsert:
  "find (\<lambda>(fp, address, or_port, nickname). fp = k)
        (filter (\<lambda>r. fst r \<noteq> fingerprint) rows @ [(fingerprint, address, or_port, nickname)])
   = (if k = fingerprint then Some (fingerprint, address, or_port, nickname)
      else find (\<lambda>(fp, address, or_port, nickname). fp = k) rows)"
  by (induction rows) (auto simp add: case_prod_unfold)

lemma count_fingerprint_upsert:
  "length (filter (\<lambda>r. fst r = fingerprint)
      (filter (\<lambda>r. fst r \<noteq> fingerprint) rows @ [(fingerprint, address, or_port, nickname)])) = 1"
  by (induction rows) auto

lemma record_relay_upsert:
  assumes "is_valid_fingerprint stem fingerprint" "is_valid_nickname stem nickname"
    "is_valid_ipv4_address stem address \<or> is_valid_ipv6_address stem address"
    "is_valid_port stem or_port"
    and "relays_table (conn self) = Some rows"
  shows "record_relay stem self fingerprint address or_port nickname
           = (Returned (),
              self\<lparr>conn := (conn self)\<lparr>relays_table :=
                 Some (filter (\<lambda>r. fst r \<noteq> fingerprint) rows @ [(fingerprint, address, or_port, nickname)])\<rparr>\<rparr>)"
  using assms by (auto simp add: record_relay_def insert_or_replace_def)

text \<open>
  C4: \<^verbatim>\<open>record_relay\<close> tests the fingerprint, then the nickname, then the address
  (IPv4 or IPv6), then the port. At the first test that fails it raises \<^verbatim>\<open>ValueError\<close>
  with the message of the source, the value between quotes and then
  \<^verbatim>\<open>isn't a valid fingerprint\<close> (or \<^verbatim>\<open>nickname\<close>, \<^verbatim>\<open>address\<close>, \<^verbatim>\<open>port\<close>, the port in
  decimal), and the cache is the one it was given. When
  all four pass, on a cache that has its \<^verbatim>\<open>relays\<close> table, the row of that fingerprint is
  replaced or added: afterwards exactly one row has the fingerprint, the nickname looked
  up is the one recorded, rows of other fingerprints are as before; and recording the
  fingerprint again with another nickname leaves the number of rows as it is, still one
  row for the fingerprint, and the lookup gives the new nickname.
\<close>

theorem record_relay_validates_then_upserts:
  "(\<not> is_valid_fingerprint stem fingerprint
      \<longrightarrow> record_relay stem self fingerprint address or_port nickname
            = (Raised (ValueError (CHR 0x27 # fingerprint @ CHR 0x27 # '' isn't a valid fingerprint'')), self))
   \<and> (is_valid_fingerprint stem fingerprint \<and> \<not> is_valid_nickname stem nickname
      \<longrightarrow> record_relay stem self fingerprint address or_port nickname
            = (Raised (ValueError (CHR 0x27 # nickname @ CHR 0x27 # '' isn't a valid nickname'')), self))
   \<and> (is_valid_fingerprint stem fingerprint \<and> is_valid_nickname stem nickname
       \<and> \<not> is_valid_ipv4_address stem address \<and> \<not> is_valid_ipv6_address stem address
      \<longrightarrow> record_relay stem self fingerprint address or_port nickname
            = (Raised (ValueError (CHR 0x27 # address @ CHR 0x27 # '' isn't a valid address'')), self))
   \<and> (is_valid_fingerprint stem fingerprint \<and> is_valid_nickname stem nickname
       \<and> (is_valid_ipv4_address stem address \<or> is_valid_ipv6_address stem address)
       \<and> \<not> is_valid_port stem or_port
      \<longrightarrow> record_relay stem self fingerprint address or_port nickname
            = (Raised (ValueError (CHR 0x27 # (str_int or_port) @ CHR 0x27 # '' isn't a valid port'')), self))
   \<and> (is_valid_fingerprint stem fingerprint \<and> is_valid_nickname stem nickname
       \<and> (is_valid_ipv4_address stem address \<or> is_valid_ipv6_address stem address)
       \<and> is_valid_port stem or_port \<and> relays_table (conn self) = Some rows
      \<longrightarrow> (\<exists>self' rows'.
             record_relay stem self fingerprint address or_port nickname = (Returned (), self')
             \<and> relays_table (conn self') = Some rows'
             \<and> rows' = filter (\<lambda>r. fst r \<noteq> fingerprint) rows @ [(fingerprint, address, or_port, nickname)]
             \<and> schema_table (conn self') = schema_table (conn self)
             \<and> on_disk self' = on_disk self
             \<and> length (filter (\<lambda>r. fst r = fingerprint) rows') = 1
             \<and> relay_nickname self' fingerprint default' = Inr (Some nickname)
             \<and> (\<forall>other. other \<noteq> fingerprint
                   \<longrightarrow> relay_nickname self' other default' = relay_nickname self other default'
                     \<and> length (filter (\<lambda>r. fst r = other) rows') = length (filter (\<lambda>r. fst r = other) rows))
             \<and> (\<forall>address2 or_port2 nickname2.
                   is_valid_nickname stem nickname2
                   \<and> (is_valid_ipv4_address stem address2 \<or> is_valid_ipv6_address stem address2)
                   \<and> is_valid_port stem or_port2
                   \<longrightarrow> (\<exists>self'' rows''.
                          record_relay stem self' fingerprint address2 or_port2 nickname2 = (Returned (), self'')
                          \<and> relays_table (conn self'') = Some rows''
                          \<and> length rows'' = length rows'
                          \<and> length (filter (\<lambda>r. fst r = fingerprint) rows'') = 1
                          \<and> relay_nickname self'' fingerprint default' = Inr (Some nickname2)))))"
  (is "?fp \<and> ?nick \<and> ?addr \<and> ?port \<and> ?ok")
proof -
  have 1: ?fp and 2: ?nick and 3: ?addr and 4: ?port
    by (simp_all add: record_relay_def isnt_valid_def)
  have 5: ?ok
  proof (intro impI)
    assume a: "is_valid_fingerprint stem fingerprint \<and> is_valid_nickname stem nickname
       \<and> (is_valid_ipv4_address stem address \<or> is_valid_ipv6_address stem address)
       \<and> is_valid_port stem or_port \<and> relays_table (conn self) = Some rows"
    let ?rows' = "filter (\<lambda>r. fst r \<noteq> fingerprint) rows @ [(fingerprint, address, or_port, nickname)]"
    let ?self' = "self\<lparr>conn := (conn self)\<lparr>relays_table := Some ?rows'\<rparr>\<rparr>"
    from a have r: "record_relay stem self fingerprint address or_port nickname = (Returned (), ?self')"
      by (intro record_relay_upsert) auto
    have n: "relay_nickname ?self' k default' =
               (if k = fingerprint then Inr (Some nickname) else relay_nickname self k default')" for k
      using a by (simp add: relay_nickname_def find_fingerprint_upsert)
    have c: "length (filter (\<lambda>r. fst r = other) ?rows') = length (filter (\<lambda>r. fst r = other) rows)"
      if "other \<noteq> fingerprint" for other
      using that by (induction rows) auto
    have again: "\<exists>self'' rows''.
            record_relay stem ?self' fingerprint address2 or_port2 nickname2 = (Returned (), self'')
            \<and> relays_table (conn self'') = Some rows''
            \<and> length rows'' = length ?rows'
            \<and> length (filter (\<lambda>r. fst r = fingerprint) rows'') = 1
            \<and> relay_nickname self'' fingerprint default' = Inr (Some nickname2)"
      if b: "is_valid_nickname stem nickname2
             \<and> (is_valid_ipv4_address stem address2 \<or> is_valid_ipv6_address stem address2)
             \<and> is_valid_port stem or_port2"
      for address2 or_port2 nickname2
    proof -
      let ?rows'' = "filter (\<lambda>r. fst r \<noteq> fingerprint) ?rows' @ [(fingerprint, address2, or_port2, nickname2)]"
      let ?self'' = "?self'\<lparr>conn := (conn ?self')\<lparr>relays_table := Some ?rows''\<rparr>\<rparr>"
      from a b have "record_relay stem ?self' fingerprint address2 or_port2 nickname2 = (Returned (), ?self'')"
        by (intro record_relay_upsert) auto
      moreover have "relay_nickname ?self'' fingerprint default' = Inr (Some nickname2)"
        by (simp add: relay_nickname_def find_fingerprint_upsert)
      moreover have "length ?rows'' = length ?rows'" by simp
      moreover have "length (filter (\<lambda>r. fst r = fingerprint) ?rows'') = 1"
        by (rule count_fingerprint_upsert)
      ultimately show ?thesis by (intro exI [of _ ?self''] exI [of _ ?rows'']) simp
    qed
    show "\<exists>self' rows'.
             record_relay stem self fingerprint address or_port nickname = (Returned (), self')
             \<and> relays_table (conn self') = Some rows'
             \<and> rows' = ?rows'
             \<and> schema_table (conn self') = schema_table (conn self)
             \<and> on_disk self' = on_disk self
             \<and> length (filter (\<lambda>r. fst r = fingerprint) rows') = 1
             \<and> relay_nickname self' fingerprint default' = Inr (Some nickname)
             \<and> (\<forall>other. other \<noteq> fingerprint
                   \<longrightarrow> relay_nickname self' other default' = relay_nickname self other default'
                     \<and> length (filter (\<lambda>r. fst r = other) rows') = length (filter (\<lambda>r. fst r = other) rows))
             \<and> (\<forall>address2 or_port2 nickname2.
                   is_valid_nickname stem nickname2
                   \<and> (is_valid_ipv4_address stem address2 \<or> is_valid_ipv6_address stem address2)
                   \<and> is_valid_port stem or_port2
                   \<longrightarrow> (\<exists>self'' rows''.
                          record_relay stem self' fingerprint address2 or_port2 nickname2 = (Returned (), self'')
                          \<and> relays_table (conn self'') = Some rows''
                          \<and> length rows'' = length rows'
                          \<and> length (filter (\<lambda>r. fst r = fingerprint) rows'') = 1
                          \<and> relay_nickname self'' fingerprint default' = Inr (Some nickname2)))"
      using r n c again count_fingerprint_upsert [of fingerprint rows address or_port nickname]
      by (intro exI [of _ ?self'] exI [of _ ?rows']) (simp del: filter_append filter.simps)
  qed
  from 1 2 3 4 5 show ?thesis by blast
qed

theorem record_relay_validates_then_upserts_witness:
  "is_valid_fingerprint sample_validators fp1 \<and> is_valid_nickname sample_validators ''moria1''
   \<and> is_valid_ipv4_address sample_validators ''128.31.0.34'' \<and> is_valid_port sample_validators 9101
   \<and> relays_table (conn memory_cache) = Some []
   \<and> record_relay sample_validators memory_cache fp1 ''128.31.0.34'' 9101 ''moria1''
       = (Returned (),
          memory_cache\<lparr>conn := (conn memory_cache)\<lparr>relays_table :=
             Some [(fp1, ''128.31.0.34'', 9101, ''moria1'')]\<rparr>\<rparr>)
   \<and> relay_nickname
         (snd (record_relay sample_validators
                 (snd (record_relay sample_validators memory_cache fp1 ''128.31.0.34'' 9101 ''moria1''))
                 fp1 ''128.31.0.34'' 9101 ''moria2''))
         fp1 None = Inr (Some ''moria2'')
   \<and> \<not> is_valid_fingerprint sample_validators ''9695DFC35FFEB861329B9F1AB04C46397020CE3''
   \<and> record_relay sample_validators memory_cache ''9695DFC35FFEB861329B9F1AB04C46397020CE3''
         ''128.31.0.34'' 9101 ''moria1''
       = (Raised (ValueError (CHR 0x27 # ''9695DFC35FFEB861329B9F1AB04C46397020CE3''
                              @ CHR 0x27 # '' isn't a valid fingerprint'')),
          memory_cache)
   \<and> relay_nickname memory_cache ''9695DFC35FFEB861329B9F1AB04C46397020CE3'' None = Inr None
   \<and> record_relay sample_validators memory_cache fp1 ''128.31.0.34'' 9101 ''moria 1''
       = (Raised (ValueError (CHR 0x27 # ''moria 1'' @ CHR 0x27 # '' isn't a valid nickname'')),
          memory_cache)
   \<and> record_relay sample_validators memory_cache fp1 ''localhost'' 9101 ''moria1''
       = (Raised (ValueError (CHR 0x27 # ''localhost'' @ CHR 0x27 # '' isn't a valid address'')),
          memory_cache)
   \<and> record_relay sample_validators memory_cache fp1 ''128.31.0.34'' 65536 ''moria1''
       = (Raised (ValueError (CHR 0x27 # ''65536'' @ CHR 0x27 # '' isn't a valid port'')),
          memory_cache)"
proof -
  have s: "str_int 65536 = ''65536''"
    by (simp add: str_int_def str_nat.simps digit_char_def)
  note t = record_relay_validates_then_upserts
  from s
    t [of sample_validators fp1 memory_cache "''128.31.0.34''" 9101 "''moria1''" "[]" None]
    t [of sample_validators "''9695DFC35FFEB861329B9F1AB04C46397020CE3''" memory_cache
          "''128.31.0.34''" 9101 "''moria1''" "[]" None]
    t [of sample_validators fp1 memory_cache "''128.31.0.34''" 9101 "''moria 1''" "[]" None]
    t [of sample_validators fp1 memory_cache "''localhost''" 9101 "''moria1''" "[]" None]
    t [of sample_validators fp1 memory_cache "''128.31.0.34''" 65536 "''moria1''" "[]" None]
  show ?thesis
    by (simp add: sample_validators_def fp1_def is_hex_def is_alnum_def memory_cache_def
        record_relay_def isnt_valid_def insert_or_replace_def relay_nickname_def)
qed


section \<open>Properties of Interface\<close>

lemma same_layout_refl: "same_layout s s"
  by (simp add: same_layout_def)

lemma same_layout_trans: "same_layout s s' \<Longrightarrow> same_layout s' s'' \<Longrightarrow> same_layout s s''"
  by (simp add: same_layout_def)

lemma same_layout_iter: "same_layout s s' \<Longrightarrow> iter_panels s' = iter_panels s"
  by (simp add: same_layout_def iter_panels_def)

lemma same_layout_page_panels: "same_layout s s' \<Longrightarrow> page_panels s' n = page_panels s n"
  by (cases n) (simp_all add: same_layout_def page_panels_def split: sum.splits)

lemma same_layout_steps:
  "same_layout s (called s p c)"
  "same_layout s (panel_set_visible s p v)"
  "same_layout s (panel_set_paused s p v)"
  "same_layout s (panel_redraw s p)"
  "same_layout s (panel_redraw_at s p force t)"
  "same_layout s (panel_start s p)"
  "same_layout s (panel_stop s p)"
  "same_layout s (panel_join s p)"
  by (simp_all add: same_layout_def called_def panel_set_visible_def panel_set_paused_def
      panel_redraw_def panel_redraw_at_def panel_start_def panel_stop_def panel_join_def)

lemma same_layout_foldl:
  assumes "\<And>s p. same_layout s (g s p)"
  shows "same_layout s (foldl g s ps)"
proof (induction ps arbitrary: s)
  case Nil
  show ?case by (simp add: same_layout_refl)
next
  case (Cons p ps)
  from assms [of s p] Cons [of "g s p"] show ?case
    by (auto intro: same_layout_trans)
qed

lemma same_visible_steps:
  "same_visible s (called s p c)"
  "same_visible s (panel_set_paused s p v)"
  "same_visible s (panel_redraw s p)"
  "same_visible s (panel_redraw_at s p force t)"
  "same_visible s (panel_start s p)"
  "same_visible s (panel_stop s p)"
  "same_visible s (panel_join s p)"
  by (simp_all add: same_visible_def called_def panel_set_paused_def
      panel_redraw_def panel_redraw_at_def panel_start_def panel_stop_def panel_join_def)

lemma same_visible_foldl:
  assumes "\<And>s p. same_visible s (g s p)"
  shows "same_visible s (foldl g s ps)"
proof (induction ps arbitrary: s)
  case Nil
  show ?case by (simp add: same_visible_def)
next
  case (Cons p ps)
  from assms [of s p] Cons [of "g s p"] show ?case
    by (simp add: same_visible_def)
qed

lemma visibility_inv_same:
  assumes "same_layout s s'" "same_visible s s'" "visibility_inv s"
  shows "visibility_inv s'"
  using assms
  by (simp add: visibility_inv_def same_layout_def same_visible_def iter_panels_def page_count_def)

text \<open>Setting the flags of a list of panels.\<close>

lemma visible_foldl:
  assumes "\<And>s p q. visible (objects (g s p) q) = (if q = p then P p else visible (objects s q))"
  shows "visible (objects (foldl g s ps) q) = (if q \<in> set ps then P q else visible (objects s q))"
proof (induction ps arbitrary: s)
  case Nil
  show ?case by simp
next
  case (Cons p ps)
  from Cons [of "g s p"] assms [of s p q] show ?case by auto
qed

lemma visible_set_visible:
  "visible (objects (panel_set_visible s p v) q) = (if q = p then v else visible (objects s q))"
  by (simp add: panel_set_visible_def called_def)

lemma page_panels_current:
  assumes "0 \<le> f_page s" and "page_panels s None = Inr vis"
  shows "f_page s < page_count s \<and> vis = f_header_panel s # f_page_panels s ! nat (f_page s)"
  using assms
  by (auto simp add: page_panels_def page_count_def py_index_def Let_def split: if_splits)

lemma page_panels_valid:
  assumes "0 \<le> f_page s" and "f_page s < page_count s"
  shows "page_panels s None = Inr (f_header_panel s # f_page_panels s ! nat (f_page s))"
  using assms by (simp add: page_panels_def page_count_def py_index_def)

lemma shown_visibility_inv:
  assumes l: "same_layout s s'" and p: "0 \<le> f_page s" and v: "page_panels s None = Inr vis"
    and f: "\<forall>q \<in> set (iter_panels s). visible (objects s' q) = (q \<in> set vis)"
  shows "visibility_inv s'"
proof -
  from page_panels_current [OF p v] l f p show ?thesis
    by (simp add: visibility_inv_def same_layout_def iter_panels_def page_count_def)
qed

lemma show_only_inv:
  assumes p: "0 \<le> f_page s" and v: "page_panels s None = Inr vis"
  shows "visibility_inv (show_only s vis)"
proof -
  have l: "same_layout s (show_only s vis)"
    unfolding show_only_def by (rule same_layout_foldl) (rule same_layout_steps)
  have "visible (objects (show_only s vis) q) = (if q \<in> set (iter_panels s) then q \<in> set vis
          else visible (objects s q))" for q
    unfolding show_only_def by (rule visible_foldl) (simp add: visible_set_visible)
  then have "\<forall>q \<in> set (iter_panels s). visible (objects (show_only s vis) q) = (q \<in> set vis)"
    by simp
  with l p v show ?thesis by (rule shown_visibility_inv)
qed

lemma set_page_inv: "visibility_inv s \<Longrightarrow> visibility_inv (snd (set_page s n))"
proof -
  assume i: "visibility_inv s"
  show ?thesis
  proof (cases "n < 0 \<or> n \<ge> page_count s \<or> n = f_page s")
    case True
    with i show ?thesis by (auto simp add: set_page_def)
  next
    case False
    let ?s1 = "panel_redraw (s\<lparr>f_page := n\<rparr>) (header_panel (s\<lparr>f_page := n\<rparr>))"
    from False have p: "0 \<le> f_page ?s1" "f_page ?s1 < page_count ?s1"
      by (simp_all add: panel_redraw_def called_def page_count_def)
    from page_panels_valid [OF p]
    obtain vis where v: "page_panels ?s1 None = Inr vis" by blast
    from show_only_inv [OF p(1) v] v False show ?thesis
      by (simp add: set_page_def Let_def)
  qed
qed

lemma construct_panels_fields:
  "f_page (construct_panels cfg d h) = 0 \<and> f_paused (construct_panels cfg d h) = False
   \<and> f_quit (construct_panels cfg d h) = False \<and> trace (construct_panels cfg d h) = []"
  by (simp add: construct_panels_def blank_interface_def new_panel_def append_if_def
      append_page_if_def Let_def case_prod_unfold)

lemma construct_panels_distinct: "distinct (iter_panels (construct_panels cfg d h))"
  by (cases "show_graph cfg"; cases "show_log cfg"; cases "show_connections cfg";
      cases "show_config cfg"; cases "show_torrc cfg"; cases "show_interpreter cfg")
     (simp_all add: construct_panels_def blank_interface_def new_panel_def append_if_def
      append_page_if_def iter_panels_def Let_def)

lemma init_step_layout:
  "same_layout s (let s' = panel_set_visible s p v
                  in if is_daemon (objects s' p) then panel_start s' p else s')"
  by (simp add: same_layout_def panel_set_visible_def panel_start_def called_def Let_def)

lemma init_step_visible:
  "visible (objects (let s' = panel_set_visible s p (P p)
                     in if is_daemon (objects s' p) then panel_start s' p else s') q)
     = (if q = p then P p else visible (objects s q))"
  by (simp add: panel_set_visible_def panel_start_def called_def Let_def)

lemma Interface_init_inv:
  assumes "Interface_init cfg d h = (Returned (), s)"
  shows "visibility_inv s"
proof -
  let ?c = "construct_panels cfg d h"
  let ?g = "\<lambda>vis s panel. let s = panel_set_visible s panel (panel \<in> set vis)
                          in if is_daemon (objects s panel) then panel_start s panel else s"
  from assms obtain vis where v: "page_panels ?c None = Inr vis"
    and s: "s = foldl (?g vis) ?c (iter_panels ?c)"
    by (auto simp add: Interface_init_def Let_def split: sum.splits)
  have p: "0 \<le> f_page ?c" by (simp add: construct_panels_fields)
  have l: "same_layout ?c s"
    unfolding s by (rule same_layout_foldl) (rule init_step_layout)
  have "visible (objects s q) = (if q \<in> set (iter_panels ?c) then q \<in> set vis
          else visible (objects ?c q))" for q
    unfolding s by (rule visible_foldl) (rule init_step_visible)
  then have "\<forall>q \<in> set (iter_panels ?c). visible (objects s q) = (q \<in> set vis)"
    by simp
  with l p v show ?thesis by (rule shown_visibility_inv)
qed

lemma Interface_init_returns:
  assumes "show_graph cfg \<or> show_log cfg \<or> show_connections cfg \<or> show_config cfg
           \<or> show_torrc cfg \<or> show_interpreter cfg"
  shows "\<exists>s. Interface_init cfg d h = (Returned (), s)"
proof -
  from assms have "f_page_panels (construct_panels cfg d h) \<noteq> []"
    by (cases "show_graph cfg"; cases "show_log cfg"; cases "show_connections cfg";
        cases "show_config cfg"; cases "show_torrc cfg"; cases "show_interpreter cfg")
       (simp_all add: construct_panels_def blank_interface_def new_panel_def append_if_def
        append_page_if_def Let_def)
  then have "0 < page_count (construct_panels cfg d h)" by (simp add: page_count_def)
  with page_panels_valid [of "construct_panels cfg d h"] show ?thesis
    by (simp add: Interface_init_def construct_panels_fields Let_def)
qed

lemma set_paused_layout:
  "f_page (snd (set_paused s b)) = f_page s
   \<and> f_page_panels (snd (set_paused s b)) = f_page_panels s
   \<and> f_header_panel (snd (set_paused s b)) = f_header_panel s
   \<and> (\<forall>p. visible (objects (snd (set_paused s b)) p) = visible (objects s p))
   \<and> f_paused (snd (set_paused s b)) = b"
proof (cases "b = f_paused s")
  case True
  then show ?thesis by (simp add: set_paused_def)
next
  case False
  let ?s0 = "s\<lparr>f_paused := b\<rparr>"
  let ?s1 = "foldl (\<lambda>s panel. panel_set_paused s panel b) ?s0 (iter_panels ?s0)"
  have l1: "same_layout ?s0 ?s1" by (rule same_layout_foldl) (rule same_layout_steps)
  have v1: "same_visible ?s0 ?s1" by (rule same_visible_foldl) (rule same_visible_steps)
  have l2: "same_layout ?s1 (foldl panel_redraw ?s1 ps)" for ps
    by (rule same_layout_foldl) (rule same_layout_steps)
  have v2: "same_visible ?s1 (foldl panel_redraw ?s1 ps)" for ps
    by (rule same_visible_foldl) (rule same_visible_steps)
  show ?thesis
  proof (cases "page_panels ?s1 None")
    case (Inl e)
    with False l1 v1 show ?thesis
      by (simp add: set_paused_def Let_def same_layout_def same_visible_def)
  next
    case (Inr ps)
    with False l1 v1 l2 [of ps] v2 [of ps] show ?thesis
      by (simp add: set_paused_def Let_def same_layout_def same_visible_def)
  qed
qed

lemma redraw_fold_layout:
  "same_layout s (fst (foldl (\<lambda>(s, occupied) panel.
        (panel_redraw_at s panel False occupied, occupied + panel_get_height s panel)) (s, n) ps))
   \<and> same_visible s (fst (foldl (\<lambda>(s, occupied) panel.
        (panel_redraw_at s panel False occupied, occupied + panel_get_height s panel)) (s, n) ps))"
proof (induction ps arbitrary: s n)
  case Nil
  show ?case by (simp add: same_layout_refl same_visible_def)
next
  case (Cons p ps)
  from Cons [of "panel_redraw_at s p False n" "n + panel_get_height s p"]
    same_layout_steps(5) [of s p False n] same_visible_steps(4) [of s p False n]
  show ?case
    by (simp add: same_layout_def same_visible_def)
qed

lemma redraw_inv: "visibility_inv s \<Longrightarrow> visibility_inv (snd (redraw s))"
  using redraw_fold_layout [of s 0]
  by (auto simp add: redraw_def split: sum.splits intro: visibility_inv_same)

lemma set_paused_inv: "visibility_inv s \<Longrightarrow> visibility_inv (snd (set_paused s b))"
  using set_paused_layout [of s b]
  by (simp add: visibility_inv_def iter_panels_def page_count_def)

lemma trace_foldl_stop:
  "trace (foldl panel_stop s ps) = trace s @ map (\<lambda>p. (p, Stop)) ps"
  by (induction ps arbitrary: s) (simp_all add: panel_stop_def called_def)

lemma trace_foldl_join:
  "trace (foldl panel_join s ps) = trace s @ map (\<lambda>p. (p, Join)) ps"
  by (induction ps arbitrary: s) (simp_all add: panel_join_def called_def)

lemma halt_panels_trace:
  "trace (halt_panels s)
     = trace s @ map (\<lambda>p. (p, Stop)) (filter (\<lambda>p. is_daemon (objects s p)) (iter_panels s))
               @ map (\<lambda>p. (p, Join)) (filter (\<lambda>p. is_daemon (objects s p)) (iter_panels s))"
  by (simp add: halt_panels_def Let_def trace_foldl_stop trace_foldl_join)

lemma halt_panels_layout: "same_layout s (halt_panels s) \<and> same_visible s (halt_panels s)"
proof -
  let ?ds = "filter (\<lambda>p. is_daemon (objects s p)) (iter_panels s)"
  have "same_layout s (foldl panel_stop s ?ds)" "same_visible s (foldl panel_stop s ?ds)"
    by (rule same_layout_foldl same_visible_foldl, rule same_layout_steps same_visible_steps)+
  moreover have "same_layout (foldl panel_stop s ?ds) (foldl panel_join (foldl panel_stop s ?ds) ?ds)"
    "same_visible (foldl panel_stop s ?ds) (foldl panel_join (foldl panel_stop s ?ds) ?ds)"
    by (rule same_layout_foldl same_visible_foldl, rule same_layout_steps same_visible_steps)+
  ultimately show ?thesis
    by (simp add: halt_panels_def Let_def same_layout_def same_visible_def)
qed

lemma perform_inv: "visibility_inv s \<Longrightarrow> visibility_inv (perform s op)"
proof (cases op)
  case (Set_page n)
  assume "visibility_inv s"
  with Set_page show ?thesis by (simp add: set_page_inv)
next
  case (Set_paused_to b)
  assume "visibility_inv s"
  with Set_paused_to show ?thesis by (simp add: set_paused_inv)
next
  case Redraw_all
  assume "visibility_inv s"
  with Redraw_all show ?thesis by (simp add: redraw_inv)
next
  case Quit
  assume "visibility_inv s"
  with Quit show ?thesis
    by (simp add: quit_def visibility_inv_def iter_panels_def page_count_def)
next
  case Halt_and_complete
  assume "visibility_inv s"
  with Halt_and_complete halt_panels_layout [of s] show ?thesis
    by (auto simp add: halt_def intro: visibility_inv_same)
qed (simp_all add: halt_def)

lemma str_int_5: "str_int 5 = ''5''"
  by (simp add: str_int_def str_nat.simps digit_char_def)

lemma Interface_init_layout:
  assumes "Interface_init cfg d h = (Returned (), s)"
  shows "same_layout (construct_panels cfg d h) s"
proof -
  let ?c = "construct_panels cfg d h"
  from assms obtain vis where
    s: "s = foldl (\<lambda>s panel. let s = panel_set_visible s panel (panel \<in> set vis)
                          in if is_daemon (objects s panel) then panel_start s panel else s)
                  ?c (iter_panels ?c)"
    by (auto simp add: Interface_init_def Let_def split: sum.splits)
  show ?thesis unfolding s by (rule same_layout_foldl) (rule init_step_layout)
qed

lemma construct_default:
  "f_page_panels (construct_panels default_config d h) = [[1, 2], [3], [4], [5], [6]]
   \<and> f_header_panel (construct_panels default_config d h) = 0"
  by (simp add: construct_panels_def default_config_def blank_interface_def new_panel_def
      append_if_def append_page_if_def Let_def)

lemma construct_default_daemons:
  "map (\<lambda>p. is_daemon (objects (construct_panels default_config nyx_daemons h) p)) [0, 1, 2, 3, 4, 5, 6]
     = [True, True, True, True, False, False, False]"
  by (simp add: construct_panels_def default_config_def blank_interface_def new_panel_def
      append_if_def append_page_if_def Let_def nyx_daemons_def)

lemma default_interface_init:
  "Interface_init default_config nyx_daemons (\<lambda>_. 1) = (Returned (), default_interface)"
proof -
  have "\<exists>s. Interface_init default_config nyx_daemons (\<lambda>_. 1) = (Returned (), s)"
    by (rule Interface_init_returns) (simp add: default_config_def)
  then show ?thesis by (auto simp add: default_interface_def)
qed

lemma default_interface_fields:
  "f_page default_interface = 0
   \<and> f_page_panels default_interface = [[1, 2], [3], [4], [5], [6]]
   \<and> f_header_panel default_interface = 0
   \<and> f_paused default_interface = False
   \<and> map (\<lambda>p. is_daemon (objects default_interface p)) [0, 1, 2, 3, 4, 5, 6]
       = [True, True, True, True, False, False, False]"
  using Interface_init_layout [OF default_interface_init]
    construct_default [of nyx_daemons "\<lambda>_. 1"] construct_default_daemons [of "\<lambda>_. 1"]
    construct_panels_fields [of default_config nyx_daemons "\<lambda>_. 1"]
  by (simp add: same_layout_def)

lemma set_page_valid:
  assumes "0 \<le> n" "n < page_count s"
  shows "fst (set_page s n) = Returned () \<and> f_page (snd (set_page s n)) = n
         \<and> same_layout (s\<lparr>f_page := n\<rparr>) (snd (set_page s n))"
proof (cases "n = f_page s")
  case True
  with assms show ?thesis by (simp add: set_page_def same_layout_def)
next
  case False
  let ?s1 = "panel_redraw (s\<lparr>f_page := n\<rparr>) (header_panel (s\<lparr>f_page := n\<rparr>))"
  have l1: "same_layout (s\<lparr>f_page := n\<rparr>) ?s1" by (rule same_layout_steps)
  from assms have p: "0 \<le> f_page ?s1" "f_page ?s1 < page_count ?s1"
    by (simp_all add: panel_redraw_def called_def page_count_def)
  from page_panels_valid [OF p]
  obtain vis where v: "page_panels ?s1 None = Inr vis" by blast
  have "same_layout ?s1 (show_only ?s1 vis)"
    unfolding show_only_def by (rule same_layout_foldl) (rule same_layout_steps)
  with l1 have l: "same_layout (s\<lparr>f_page := n\<rparr>) (show_only ?s1 vis)"
    by (rule same_layout_trans)
  from assms False v have r: "set_page s n = (Returned (), show_only ?s1 vis)"
    by (simp add: set_page_def Let_def)
  from l r show ?thesis by (simp add: same_layout_def)
qed

lemma set_page_changed_inv:
  assumes "0 \<le> n" "n < page_count s" "n \<noteq> f_page s"
  shows "visibility_inv (snd (set_page s n))"
proof -
  let ?s1 = "panel_redraw (s\<lparr>f_page := n\<rparr>) (header_panel (s\<lparr>f_page := n\<rparr>))"
  from assms have p: "0 \<le> f_page ?s1" "f_page ?s1 < page_count ?s1"
    by (simp_all add: panel_redraw_def called_def page_count_def)
  from page_panels_valid [OF p]
  obtain vis where v: "page_panels ?s1 None = Inr vis" by blast
  from show_only_inv [OF p(1) v] v assms show ?thesis
    by (simp add: set_page_def Let_def)
qed

text \<open>
  C3: for every interface and every \<open>p\<close> with \<open>0 \<le> p < page_count()\<close>, \<^verbatim>\<open>set_page(p)\<close>
  returns, \<^verbatim>\<open>get_page()\<close> is \<open>p\<close> afterwards, and the number of pages is as before. For
  every other \<open>p\<close> it raises \<^verbatim>\<open>ValueError\<close> and the interface, its panels and the calls
  made on them are exactly as before, so \<^verbatim>\<open>get_page()\<close> gives what it gave.
\<close>

theorem set_page_get_page:
  "(0 \<le> p \<and> p < page_count self
      \<longrightarrow> fst (set_page self p) = Returned () \<and> get_page (snd (set_page self p)) = p
          \<and> page_count (snd (set_page self p)) = page_count self)
   \<and> (\<not> (0 \<le> p \<and> p < page_count self)
      \<longrightarrow> set_page self p = (Raised (ValueError (''Invalid page number: '' @ str_int p)), self)
          \<and> get_page (snd (set_page self p)) = get_page self)"
proof -
  have "fst (set_page self p) = Returned () \<and> get_page (snd (set_page self p)) = p
          \<and> page_count (snd (set_page self p)) = page_count self"
    if "0 \<le> p \<and> p < page_count self"
    using that set_page_valid [of p self]
    by (simp add: get_page_def page_count_def same_layout_def)
  moreover have "set_page self p = (Raised (ValueError (''Invalid page number: '' @ str_int p)), self)"
    if "\<not> (0 \<le> p \<and> p < page_count self)"
    using that by (auto simp add: set_page_def)
  ultimately show ?thesis by auto
qed

theorem set_page_get_page_witness:
  "page_count default_interface = 5
   \<and> fst (set_page default_interface 2) = Returned ()
   \<and> get_page (snd (set_page default_interface 2)) = 2
   \<and> set_page default_interface 5
       = (Raised (ValueError ''Invalid page number: 5''), default_interface)
   \<and> get_page (snd (set_page default_interface 5)) = 0"
  using set_page_get_page [of 2 default_interface] set_page_get_page [of 5 default_interface]
  by (simp add: page_count_def get_page_def default_interface_fields str_int_5)

text \<open>
  C6: whenever the constructor returns, every panel is visible exactly when it is the
  header or belongs to the page shown, and the constructor returns as soon as one page is
  configured. Every operation keeps that. \<^verbatim>\<open>set_page\<close> to another valid page sets every
  flag against the new page: the invariant holds after it whatever the flags were before.
\<close>

theorem visibility_invariant:
  "(\<forall>s. Interface_init CONFIG daemons heights = (Returned (), s) \<longrightarrow> visibility_inv s)
   \<and> (show_graph CONFIG \<or> show_log CONFIG \<or> show_connections CONFIG \<or> show_config CONFIG
        \<or> show_torrc CONFIG \<or> show_interpreter CONFIG
       \<longrightarrow> (\<exists>s. Interface_init CONFIG daemons heights = (Returned (), s)))
   \<and> (visibility_inv self \<longrightarrow> visibility_inv (perform self op))
   \<and> (0 \<le> n \<and> n < page_count self \<and> n \<noteq> f_page self
       \<longrightarrow> visibility_inv (snd (set_page self n)))"
  using Interface_init_inv [of CONFIG daemons heights]
        Interface_init_returns [of CONFIG daemons heights]
        perform_inv [of self op] set_page_changed_inv [of n self]
  by blast

theorem visibility_invariant_witness:
  "Interface_init default_config nyx_daemons (\<lambda>_. 1) = (Returned (), default_interface)
   \<and> visibility_inv default_interface
   \<and> visibility_inv (perform default_interface (Set_page 2))
   \<and> map (\<lambda>p. visible (objects default_interface p)) [0, 1, 2, 3, 4, 5, 6]
       = [True, True, True, False, False, False, False]"
proof -
  note t = visibility_invariant [of default_config nyx_daemons "\<lambda>_. 1" default_interface "Set_page 2" 2]
  from t default_interface_init have i: "visibility_inv default_interface" by blast
  with t have p: "visibility_inv (perform default_interface (Set_page 2))" by blast
  from i have "map (\<lambda>p. visible (objects default_interface p)) [0, 1, 2, 3, 4, 5, 6]
       = [True, True, True, False, False, False, False]"
    by (simp add: visibility_inv_def iter_panels_def default_interface_fields)
  with i p default_interface_init show ?thesis by simp
qed

lemma trace_foldl_set_paused:
  "trace (foldl (\<lambda>s panel. panel_set_paused s panel b) s ps)
     = trace s @ map (\<lambda>p. (p, Set_paused b)) ps"
  by (induction ps arbitrary: s) (simp_all add: panel_set_paused_def called_def)

lemma trace_foldl_redraw:
  "trace (foldl panel_redraw s ps) = trace s @ map (\<lambda>p. (p, Redraw)) ps"
  by (induction ps arbitrary: s) (simp_all add: panel_redraw_def called_def)

lemma calls_of_append: "calls_of c (t @ u) = calls_of c t @ calls_of c u"
  by (simp add: calls_of_def)

lemma calls_of_same: "calls_of c (map (\<lambda>p. (p, c)) ps) = ps"
  by (induction ps) (simp_all add: calls_of_def)

lemma calls_of_other: "c \<noteq> c' \<Longrightarrow> calls_of c (map (\<lambda>p. (p, c')) ps) = []"
  by (induction ps) (simp_all add: calls_of_def)

lemma set_paused_calls:
  assumes "b \<noteq> f_paused s"
  shows "calls_of (Set_paused b) (trace (snd (set_paused s b)))
           = calls_of (Set_paused b) (trace s) @ iter_panels s"
proof -
  let ?s0 = "s\<lparr>f_paused := b\<rparr>"
  let ?s1 = "foldl (\<lambda>s panel. panel_set_paused s panel b) ?s0 (iter_panels ?s0)"
  have i: "iter_panels ?s0 = iter_panels s" by (simp add: iter_panels_def)
  have t1: "trace ?s1 = trace s @ map (\<lambda>p. (p, Set_paused b)) (iter_panels s)"
    by (simp add: trace_foldl_set_paused i)
  show ?thesis
  proof (cases "page_panels ?s1 None")
    case (Inl e)
    with assms t1 show ?thesis
      by (simp add: set_paused_def Let_def calls_of_append calls_of_same)
  next
    case (Inr ps)
    with assms t1 show ?thesis
      by (simp add: set_paused_def Let_def trace_foldl_redraw calls_of_append calls_of_same
          calls_of_other)
  qed
qed

text \<open>
  C8: \<^verbatim>\<open>set_paused(p)\<close> on an interface whose paused flag is \<open>p\<close> returns with the
  interface and all panels unchanged and no call made. After any \<^verbatim>\<open>set_paused(p)\<close> the
  flag is \<open>p\<close>, so a second \<^verbatim>\<open>set_paused(p)\<close> changes nothing; when the flag was not
  \<open>p\<close>, the two calls together hand \<open>p\<close> to each panel of the interface once.
\<close>

theorem set_paused_idempotent:
  "set_paused self (f_paused self) = (Returned (), self)
   \<and> is_paused (snd (set_paused self p)) = p
   \<and> set_paused (snd (set_paused self p)) p = (Returned (), snd (set_paused self p))
   \<and> (p \<noteq> f_paused self
       \<longrightarrow> calls_of (Set_paused p) (trace (snd (set_paused (snd (set_paused self p)) p)))
             = calls_of (Set_paused p) (trace self) @ iter_panels self)"
proof -
  have a: "set_paused s (f_paused s) = (Returned (), s)" for s
    by (simp add: set_paused_def)
  have b: "f_paused (snd (set_paused self p)) = p"
    using set_paused_layout [of self p] by simp
  from a [of "snd (set_paused self p)"] b
  have c: "set_paused (snd (set_paused self p)) p = (Returned (), snd (set_paused self p))"
    by simp
  from c have again: "snd (set_paused (snd (set_paused self p)) p) = snd (set_paused self p)"
    by simp
  have d: "p \<noteq> f_paused self
       \<longrightarrow> calls_of (Set_paused p) (trace (snd (set_paused (snd (set_paused self p)) p)))
             = calls_of (Set_paused p) (trace self) @ iter_panels self"
  proof
    assume "p \<noteq> f_paused self"
    then have "calls_of (Set_paused p) (trace (snd (set_paused self p)))
                 = calls_of (Set_paused p) (trace self) @ iter_panels self"
      by (rule set_paused_calls)
    then show "calls_of (Set_paused p) (trace (snd (set_paused (snd (set_paused self p)) p)))
             = calls_of (Set_paused p) (trace self) @ iter_panels self"
      by (simp only: again)
  qed
  from b have e: "is_paused (snd (set_paused self p)) = p" by (simp add: is_paused_def)
  from a [of self] e c d show ?thesis by blast
qed

theorem set_paused_idempotent_witness:
  "\<not> f_paused default_interface
   \<and> calls_of (Set_paused True) (trace default_interface) = []
   \<and> calls_of (Set_paused True)
        (trace (snd (set_paused (snd (set_paused default_interface True)) True)))
       = [0, 1, 2, 3, 4, 5, 6]
   \<and> set_paused (snd (set_paused default_interface True)) True
       = (Returned (), snd (set_paused default_interface True))"
proof -
  have t: "calls_of (Set_paused True) (trace default_interface) = []"
  proof -
    let ?c = "construct_panels default_config nyx_daemons (\<lambda>_. 1)"
    have "calls_of (Set_paused True)
            (trace (foldl (\<lambda>s panel. let s = panel_set_visible s panel (P panel)
                              in if is_daemon (objects s panel) then panel_start s panel else s) s ps))
          = calls_of (Set_paused True) (trace s)" for P s ps
      by (induction ps arbitrary: s)
         (simp_all add: Let_def panel_set_visible_def panel_start_def called_def calls_of_def)
    moreover have "calls_of (Set_paused True) (trace ?c) = []"
      by (simp add: construct_panels_fields calls_of_def)
    ultimately show ?thesis
      using default_interface_init
      by (auto simp add: default_interface_def Interface_init_def Let_def split: sum.splits)
  qed
  note i = set_paused_idempotent [of default_interface True]
  have f: "\<not> f_paused default_interface" by (simp add: default_interface_fields)
  then have "True \<noteq> f_paused default_interface" by simp
  with i have "calls_of (Set_paused True)
        (trace (snd (set_paused (snd (set_paused default_interface True)) True)))
       = calls_of (Set_paused True) (trace default_interface) @ iter_panels default_interface"
    by blast
  then have "calls_of (Set_paused True)
        (trace (snd (set_paused (snd (set_paused default_interface True)) True)))
       = [0, 1, 2, 3, 4, 5, 6]"
    by (simp only: t) (simp add: default_interface_fields iter_panels_def)
  with i t f show ?thesis by blast
qed

lemma count_list_map_pair:
  "count_list (map (\<lambda>p. (p, c)) ps) (q, c') = (if c = c' then count_list ps q else 0)"
  by (induction ps) auto

lemma distinct_count_list: "distinct ps \<Longrightarrow> q \<in> set ps \<Longrightarrow> count_list ps q = 1"
  by (induction ps) auto

lemma perform_panels:
  "iter_panels (perform s op) = iter_panels s
   \<and> (\<forall>p. is_daemon (objects (perform s op) p) = is_daemon (objects s p))"
proof (cases op)
  case (Set_page n)
  show ?thesis
  proof (cases "0 \<le> n \<and> n < page_count s")
    case True
    with set_page_valid [of n s] Set_page show ?thesis
      by (simp add: same_layout_def iter_panels_def)
  next
    case False
    with Set_page show ?thesis by (auto simp add: set_page_def)
  qed
next
  case (Set_paused_to b)
  show ?thesis
  proof (cases "b = f_paused s")
    case True
    with Set_paused_to show ?thesis by (simp add: set_paused_def)
  next
    case False
    let ?s0 = "s\<lparr>f_paused := b\<rparr>"
    let ?s1 = "foldl (\<lambda>s panel. panel_set_paused s panel b) ?s0 (iter_panels ?s0)"
    have l1: "same_layout ?s0 ?s1" by (rule same_layout_foldl) (rule same_layout_steps)
    have l2: "same_layout ?s1 (foldl panel_redraw ?s1 ps)" for ps
      by (rule same_layout_foldl) (rule same_layout_steps)
    from False Set_paused_to l1 l2 show ?thesis
      by (cases "page_panels ?s1 None")
         (simp_all add: set_paused_def Let_def same_layout_def iter_panels_def)
  qed
next
  case Redraw_all
  with redraw_fold_layout [of s 0] show ?thesis
    by (auto simp add: redraw_def same_layout_def iter_panels_def split: sum.splits)
next
  case Quit
  then show ?thesis by (simp add: quit_def iter_panels_def)
next
  case Halt_and_complete
  with halt_panels_layout [of s] show ?thesis
    by (simp add: halt_def same_layout_def iter_panels_def)
qed (simp_all add: halt_def)

text \<open>
  C9: \<^verbatim>\<open>halt\<close> hands back the thread and leaves the interface as it is, no call made on
  any panel. When the thread has run to its end, the calls it added are \<^verbatim>\<open>stop\<close> on every
  daemon panel followed by \<^verbatim>\<open>join\<close> on every daemon panel, so every \<^verbatim>\<open>stop\<close> comes
  before any \<^verbatim>\<open>join\<close>. Where no panel occurs twice in the interface, each daemon panel
  gets exactly one \<^verbatim>\<open>stop\<close> and one \<^verbatim>\<open>join\<close>; that is so for every interface the
  constructor returns, and every operation keeps it so.
\<close>

theorem halt_stops_then_joins:
  "snd (halt self) = self
   \<and> trace (completed (fst (halt self)) s)
       = trace s @ map (\<lambda>p. (p, Stop)) (daemon_panels s) @ map (\<lambda>p. (p, Join)) (daemon_panels s)
   \<and> (distinct (iter_panels s)
       \<longrightarrow> (\<forall>p \<in> set (daemon_panels s).
              count_list (map (\<lambda>p. (p, Stop)) (daemon_panels s) @ map (\<lambda>p. (p, Join)) (daemon_panels s))
                (p, Stop) = 1
              \<and> count_list (map (\<lambda>p. (p, Stop)) (daemon_panels s) @ map (\<lambda>p. (p, Join)) (daemon_panels s))
                (p, Join) = 1))
   \<and> (\<forall>s0. Interface_init CONFIG daemons heights = (Returned (), s0) \<longrightarrow> distinct (iter_panels s0))
   \<and> (distinct (iter_panels s) \<longrightarrow> distinct (iter_panels (perform s op)))"
proof -
  have a: "snd (halt self) = self" by (simp add: halt_def)
  have b: "trace (completed (fst (halt self)) s)
       = trace s @ map (\<lambda>p. (p, Stop)) (daemon_panels s) @ map (\<lambda>p. (p, Join)) (daemon_panels s)"
    by (simp add: halt_def halt_panels_trace daemon_panels_def)
  have c: "count_list (map (\<lambda>p. (p, Stop)) (daemon_panels s) @ map (\<lambda>p. (p, Join)) (daemon_panels s))
                (p, Stop) = 1
           \<and> count_list (map (\<lambda>p. (p, Stop)) (daemon_panels s) @ map (\<lambda>p. (p, Join)) (daemon_panels s))
                (p, Join) = 1"
    if "distinct (iter_panels s)" "p \<in> set (daemon_panels s)" for p
  proof -
    from that(1) have "distinct (daemon_panels s)" by (simp add: daemon_panels_def)
    from distinct_count_list [OF this that(2)] show ?thesis
      by (simp add: count_list_map_pair)
  qed
  have d: "distinct (iter_panels s0)" if "Interface_init CONFIG daemons heights = (Returned (), s0)" for s0
    using Interface_init_layout [OF that] construct_panels_distinct [of CONFIG daemons heights]
    by (simp add: same_layout_iter)
  have e: "distinct (iter_panels s) \<longrightarrow> distinct (iter_panels (perform s op))"
    by (simp add: perform_panels)
  from a b c d e show ?thesis by blast
qed

theorem halt_stops_then_joins_witness:
  "distinct (iter_panels default_interface)
   \<and> daemon_panels default_interface = [0, 1, 2, 3]
   \<and> trace (snd (halt default_interface)) = trace default_interface
   \<and> trace (completed (fst (halt default_interface)) default_interface)
       = trace default_interface
         @ [(0, Stop), (1, Stop), (2, Stop), (3, Stop), (0, Join), (1, Join), (2, Join), (3, Join)]"
proof -
  have d: "daemon_panels default_interface = [0, 1, 2, 3]"
    using default_interface_fields by (simp add: daemon_panels_def iter_panels_def)
  from d default_interface_init
    halt_stops_then_joins [of default_interface default_interface default_config nyx_daemons "\<lambda>_. 1" Halt]
  show ?thesis by simp
qed

end
